theory Spec2Isabelle
  imports Complex_Main
begin

section \<open>Data model of \<open>data_entry.py\<close>\<close>

text \<open>
  The module builds one training example (class \<open>DataEntry\<close>) from mono signals and a
  table of binaural impulse responses. Samples, spectrogram magnitudes and network
  outputs are floating-point numbers in the source; they are modelled by \<open>real\<close>, so
  rounding, infinities and NaN are outside the model. Class indices, pixel counts and
  azimuths are integers.

  Every exception the source can raise is a value of \<open>py_error\<close>; a function that can
  raise returns \<open>py_error + 'a\<close>.
\<close>

datatype py_error = AssertionError | IndexError | ValueError | ZeroDivisionError | PyException

text \<open>
  The constants of the module \<open>parameters\<close>, which the source imports and reads, are
  the fields of a record passed to every function that reads one.
\<close>

record parameters =
  SIGNAL_LENGTH_SEC :: real
  SAMPLE_RATE_HZ :: real
  INPUT_SIGNAL_RMS :: real
  NUM_OF_DIRECTIONS :: nat
  SGRAM_NOISE_TH_dB :: real
  MIXED_IBM_IDENTIFICATION_TH :: int

text \<open>
  A two-dimensional numpy array is a list of rows together with its number of columns
  (an array with no row still has a column count). numpy arrays are rectangular:
  \<open>valid_array2\<close>.
\<close>

datatype 'a array2 = Array2 (ncols: nat) (rows: "'a list list")

definition shape0 :: "'a array2 \<Rightarrow> nat" where
  "shape0 a = length (rows a)"

definition shape1 :: "'a array2 \<Rightarrow> nat" where
  "shape1 a = ncols a"

definition valid_array2 :: "'a array2 \<Rightarrow> bool" where
  "valid_array2 a = list_all (\<lambda>r. length r = ncols a) (rows a)"

definition zeros2 :: "nat \<Rightarrow> nat \<Rightarrow> ('a::zero) array2" where
  "zeros2 n0 n1 = Array2 n1 (replicate n0 (replicate n1 0))"

text \<open>numpy index normalisation on an axis of length \<open>n\<close>: a negative index counts from the end.\<close>

definition np_index :: "nat \<Rightarrow> int \<Rightarrow> py_error + nat" where
  "np_index n i =
     (if 0 \<le> i \<and> i < int n then Inr (nat i)
      else if - int n \<le> i \<and> i < 0 then Inr (nat (int n + i))
      else Inl IndexError)"

text \<open>\<open>a[i, j]\<close> and \<open>a[i, j] = v\<close>.\<close>

definition get2 :: "'a array2 \<Rightarrow> int \<Rightarrow> int \<Rightarrow> py_error + 'a" where
  "get2 a i j =
     (case np_index (shape0 a) i of
        Inl e \<Rightarrow> Inl e
      | Inr i' \<Rightarrow>
          (case np_index (shape1 a) j of
             Inl e \<Rightarrow> Inl e
           | Inr j' \<Rightarrow> Inr (rows a ! i' ! j')))"

definition set2 :: "'a array2 \<Rightarrow> int \<Rightarrow> int \<Rightarrow> 'a \<Rightarrow> py_error + 'a array2" where
  "set2 a i j v =
     (case np_index (shape0 a) i of
        Inl e \<Rightarrow> Inl e
      | Inr i' \<Rightarrow>
          (case np_index (shape1 a) j of
             Inl e \<Rightarrow> Inl e
           | Inr j' \<Rightarrow> Inr (Array2 (ncols a) ((rows a)[i' := (rows a ! i')[j' := v]]))))"

text \<open>\<open>a[i, :]\<close>.\<close>

definition get_row :: "'a array2 \<Rightarrow> int \<Rightarrow> py_error + 'a list" where
  "get_row a i =
     (case np_index (shape0 a) i of
        Inl e \<Rightarrow> Inl e
      | Inr i' \<Rightarrow> Inr (rows a ! i'))"

text \<open>
  \<open>numpy.argmax\<close> and \<open>numpy.argmin\<close> of a one-dimensional array: the first index that
  holds the largest (smallest) value; an empty array raises \<open>ValueError\<close>.
\<close>

fun first_max_index :: "('a::linorder) list \<Rightarrow> nat" where
  "first_max_index [] = 0"
| "first_max_index [x] = 0"
| "first_max_index (x # y # ys) =
     (let j = first_max_index (y # ys) in if x < (y # ys) ! j then Suc j else 0)"

fun first_min_index :: "('a::linorder) list \<Rightarrow> nat" where
  "first_min_index [] = 0"
| "first_min_index [x] = 0"
| "first_min_index (x # y # ys) =
     (let j = first_min_index (y # ys) in if (y # ys) ! j < x then Suc j else 0)"

definition argmax :: "('a::linorder) list \<Rightarrow> py_error + nat" where
  "argmax xs = (if xs = [] then Inl ValueError else Inr (first_max_index xs))"

definition argmin :: "('a::linorder) list \<Rightarrow> py_error + nat" where
  "argmin xs = (if xs = [] then Inl ValueError else Inr (first_min_index xs))"

text \<open>A Python \<open>for\<close> loop whose body may raise: the first exception ends the loop.\<close>

fun for_each :: "('a \<Rightarrow> 's \<Rightarrow> 'e + 's) \<Rightarrow> 'a list \<Rightarrow> 's \<Rightarrow> 'e + 's" where
  "for_each body [] s = Inr s"
| "for_each body (x # xs) s =
     (case body x s of Inl e \<Rightarrow> Inl e | Inr s' \<Rightarrow> for_each body xs s')"

section \<open>Azimuth grid\<close>

text \<open>
  \<open>getAngleIdx\<close> is \<open>int((angle+90)/5)\<close>: true division, then truncation towards zero.
  \<open>getAngleFromIdx\<close> is \<open>angle_idx*5-90\<close>.
\<close>

definition getAngleIdx :: "int \<Rightarrow> int" where
  "getAngleIdx angle =
     (if 0 \<le> angle + 90 then (angle + 90) div 5 else - ((- (angle + 90)) div 5))"

definition getAngleFromIdx :: "int \<Rightarrow> int" where
  "getAngleFromIdx angle_idx = angle_idx * 5 - 90"

section \<open>Mask codec: \<open>mixedIbmToIbms\<close>\<close>

text \<open>
  \<open>numpy.unique(mixed_ibm, return_counts=True)\<close>: the distinct values of the flattened
  array in ascending order, and how often each occurs.
\<close>

definition np_unique_counts :: "int array2 \<Rightarrow> int list \<times> nat list" where
  "np_unique_counts a =
     (let flat = concat (rows a); u = sort (remdups flat)
      in (u, map (count_list flat) u))"

text \<open>\<open>ibm = numpy.zeros(mixed_ibm.shape); ibm[mixed_ibm==c] = 1\<close>.\<close>

definition ibm_of :: "int array2 \<Rightarrow> int \<Rightarrow> int array2" where
  "ibm_of mixed_ibm c =
     Array2 (ncols mixed_ibm) (map (map (\<lambda>x. if x = c then 1 else 0)) (rows mixed_ibm))"

text \<open>
  The loop over \<open>range(len(angle_ind))\<close> reads \<open>angle_ind[ind]\<close> and \<open>angle_count[ind]\<close>
  together; it runs here over the list of these pairs, with the two output lists as
  accumulator.
\<close>

fun mixedIbmToIbms_loop ::
  "parameters \<Rightarrow> int array2 \<Rightarrow> (int \<times> nat) list \<Rightarrow> int array2 list \<times> int list
     \<Rightarrow> int array2 list \<times> int list" where
  "mixedIbmToIbms_loop p mixed_ibm [] acc = acc"
| "mixedIbmToIbms_loop p mixed_ibm ((idx, cnt) # rest) (ibms, angles) =
     (if int cnt < MIXED_IBM_IDENTIFICATION_TH p
        then mixedIbmToIbms_loop p mixed_ibm rest (ibms, angles)
      else if int (NUM_OF_DIRECTIONS p) \<le> idx
        then mixedIbmToIbms_loop p mixed_ibm rest (ibms, angles)
      else mixedIbmToIbms_loop p mixed_ibm rest
             (ibms @ [ibm_of mixed_ibm idx], angles @ [getAngleFromIdx idx]))"

definition mixedIbmToIbms :: "parameters \<Rightarrow> int array2 \<Rightarrow> int array2 list \<times> int list" where
  "mixedIbmToIbms p mixed_ibm =
     (case np_unique_counts mixed_ibm of
        (angle_ind, angle_count) \<Rightarrow>
          mixedIbmToIbms_loop p mixed_ibm (zip angle_ind angle_count) ([], []))"

text \<open>
  The class values for which the loop reaches the two \<open>append\<close> calls: those that pass
  both tests, in the order of \<open>numpy.unique\<close>.
\<close>

definition surviving_classes :: "parameters \<Rightarrow> int array2 \<Rightarrow> int list" where
  "surviving_classes p mixed_ibm =
     filter (\<lambda>c. MIXED_IBM_IDENTIFICATION_TH p \<le> int (count_list (concat (rows mixed_ibm)) c)
                 \<and> c < int (NUM_OF_DIRECTIONS p))
       (sort (remdups (concat (rows mixed_ibm))))"

section \<open>Mask codec: \<open>dnnTargetToMixedIbm\<close>\<close>

text \<open>
  \<open>dnn_target\<close> is a list with one array per frequency channel. The body of the two
  nested loops stores the first-maximum column of row \<open>time_dim\<close> of channel
  \<open>freq_dim\<close>; \<open>freq_dim\<close> ranges over \<open>range(len(dnn_target))\<close>, so \<open>dnn_target[freq_dim]\<close>
  is in range.
\<close>

definition dnnTargetToMixedIbm_body ::
  "real array2 list \<Rightarrow> nat \<Rightarrow> nat \<Rightarrow> int array2 \<Rightarrow> py_error + int array2" where
  "dnnTargetToMixedIbm_body dnn_target time_dim freq_dim mixed_ibm =
     (case get_row (dnn_target ! freq_dim) (int time_dim) of
        Inl e \<Rightarrow> Inl e
      | Inr row \<Rightarrow>
          (case argmax row of
             Inl e \<Rightarrow> Inl e
           | Inr k \<Rightarrow> set2 mixed_ibm (int time_dim) (int freq_dim) (int k)))"

definition dnnTargetToMixedIbm :: "real array2 list \<Rightarrow> py_error + int array2" where
  "dnnTargetToMixedIbm dnn_target =
     (case dnn_target of
        [] \<Rightarrow> Inl IndexError
      | d0 # _ \<Rightarrow>
          (let mixed_ibm = zeros2 (shape0 d0) (length dnn_target)
           in for_each
                (\<lambda>time_dim. for_each (dnnTargetToMixedIbm_body dnn_target time_dim)
                                [0..<shape1 mixed_ibm])
                [0..<shape0 mixed_ibm] mixed_ibm))"

text \<open>
  A one-hot row, in the words of the specification: exactly one entry is 1 and every
  other entry is 0. A valid family of targets has one rectangular array of one-hot
  rows per frequency channel, all of one shape.
\<close>

definition one_hot :: "real list \<Rightarrow> bool" where
  "one_hot r = (length (filter (\<lambda>x. x = 1) r) = 1 \<and> list_all (\<lambda>x. x = 0 \<or> x = 1) r)"

definition valid_targets :: "nat \<Rightarrow> nat \<Rightarrow> real array2 list \<Rightarrow> bool" where
  "valid_targets n0 n1 dnn_target =
     (dnn_target \<noteq> [] \<and>
      list_all (\<lambda>a. valid_array2 a \<and> shape0 a = n0 \<and> shape1 a = n1 \<and> list_all one_hot (rows a))
        dnn_target)"

section \<open>Angle allocator\<close>

text \<open>Python's \<open>range(start, stop, step)\<close> for a positive step.\<close>

definition py_range :: "int \<Rightarrow> int \<Rightarrow> int \<Rightarrow> int list" where
  "py_range start stop step =
     map (\<lambda>k. start + step * int k) [0..<nat ((stop - start + step - 1) div step)]"

definition angles_list :: "int list" where
  "angles_list = py_range (- 90) (90 + 5) 5"

text \<open>
  \<open>random.choice(seq)\<close> returns \<open>seq[i]\<close> for an index \<open>i\<close> drawn below \<open>len(seq)\<close>, and
  raises \<open>IndexError\<close> on an empty sequence. The draw is the argument \<open>rnd\<close>, reduced
  modulo the length, so every element can be chosen and nothing else.
\<close>

definition getRandomAngle :: "nat \<Rightarrow> int list \<Rightarrow> py_error + int" where
  "getRandomAngle rnd forbidden_angles =
     (let possible_angles = filter (\<lambda>angle. angle \<notin> set forbidden_angles) angles_list
      in if possible_angles = [] then Inl IndexError
         else Inr (possible_angles ! (rnd mod length possible_angles)))"

section \<open>Impulse-response index and binaural renderer\<close>

definition find_closest_idx_in_array :: "real list \<Rightarrow> real \<Rightarrow> py_error + nat" where
  "find_closest_idx_in_array array val = argmin (map (\<lambda>a. \<bar>a - val\<bar>) array)"

text \<open>
  \<open>scipy.signal.convolve(a, b, 'same')\<close> for one-dimensional inputs: the full linear
  convolution, cut to the central \<open>len(a)\<close> samples. The model raises \<open>ValueError\<close> for an
  empty input, where no signal of the length of \<open>a\<close> results.
\<close>

definition convolve_full :: "real list \<Rightarrow> real list \<Rightarrow> real list" where
  "convolve_full a b =
     map (\<lambda>k. \<Sum>j\<leftarrow>[0..<length a]. if j \<le> k \<and> k - j < length b then a ! j * b ! (k - j) else 0)
       [0..<length a + length b - 1]"

definition convolve_same :: "real list \<Rightarrow> real list \<Rightarrow> py_error + real list" where
  "convolve_same a b =
     (if a = [] \<or> b = [] then Inl ValueError
      else Inr (take (length a) (drop ((length b - 1) div 2) (convolve_full a b))))"

text \<open>\<open>a[:, j]\<close> for \<open>j \<ge> 0\<close>.\<close>

definition get_col :: "'a array2 \<Rightarrow> nat \<Rightarrow> py_error + 'a list" where
  "get_col a j = (if j < shape1 a then Inr (map (\<lambda>r. r ! j) (rows a)) else Inl IndexError)"

text \<open>
  \<open>brir\<close> is the three-dimensional array \<open>[direction, channel, taps]\<close>: a list with one
  two-dimensional array per direction. \<open>pos_def\<close> holds the stored azimuth of each
  direction in its column 0. \<open>numpy.vstack((channel1, channel2)).T\<close> is the array with
  one row \<open>[channel1[i], channel2[i]]\<close> per sample.
\<close>

definition getBinauralSound ::
  "real list \<Rightarrow> real array2 list \<Rightarrow> real array2 \<Rightarrow> int \<Rightarrow> py_error + real array2" where
  "getBinauralSound audio_in brir pos_def angle0 =
     (if angle0 > 90 \<or> angle0 < - 90 then Inl PyException
      else
        (let angle = (if angle0 < 0 then angle0 + 360 else angle0) in
         case get_col pos_def 0 of
           Inl e \<Rightarrow> Inl e
         | Inr angles \<Rightarrow>
             (case find_closest_idx_in_array angles (real_of_int angle) of
                Inl e \<Rightarrow> Inl e
              | Inr angle_idx \<Rightarrow>
                  if angle_idx \<ge> length brir then Inl IndexError
                  else
                    (let brir_direction = brir ! angle_idx in
                     case get_row brir_direction 0 of
                       Inl e \<Rightarrow> Inl e
                     | Inr taps1 \<Rightarrow>
                         (case convolve_same audio_in taps1 of
                            Inl e \<Rightarrow> Inl e
                          | Inr channel1 \<Rightarrow>
                              (case get_row brir_direction 1 of
                                 Inl e \<Rightarrow> Inl e
                               | Inr taps2 \<Rightarrow>
                                   (case convolve_same audio_in taps2 of
                                      Inl e \<Rightarrow> Inl e
                                    | Inr channel2 \<Rightarrow>
                                        Inr (Array2 2 (map2 (\<lambda>x y. [x, y]) channel1 channel2)))))))))"

section \<open>Construction of a data entry\<close>

text \<open>
  \<open>getArrayRms\<close> is \<open>numpy.sqrt(numpy.linalg.norm(arr_in)/arr_in.size)\<close>, where
  \<open>numpy.linalg.norm\<close> of a one-dimensional array is the square root of the sum of the
  squared samples. \<open>rms\<close> is the root mean square itself, the square root of the mean of
  the squared samples; the source has no function for it.
\<close>

definition linalg_norm :: "real list \<Rightarrow> real" where
  "linalg_norm arr_in = sqrt (\<Sum>x\<leftarrow>arr_in. x\<^sup>2)"

definition getArrayRms :: "real list \<Rightarrow> real" where
  "getArrayRms arr_in = sqrt (linalg_norm arr_in / real (length arr_in))"

definition rms :: "real list \<Rightarrow> real" where
  "rms xs = sqrt ((\<Sum>x\<leftarrow>xs. x\<^sup>2) / real (length xs))"

text \<open>\<open>signal = (signal/sig_rms)*parameters.INPUT_SIGNAL_RMS\<close>, sample by sample.\<close>

definition normalize_signal :: "parameters \<Rightarrow> real list \<Rightarrow> real list" where
  "normalize_signal p signal =
     (let sig_rms = getArrayRms signal
      in map (\<lambda>x. (x / sig_rms) * INPUT_SIGNAL_RMS p) signal)"

text \<open>\<open>int(x)\<close> of a float: truncation towards zero.\<close>

definition py_int :: "real \<Rightarrow> int" where
  "py_int x = (if 0 \<le> x then \<lfloor>x\<rfloor> else \<lceil>x\<rceil>)"

definition signal_length_samples :: "parameters \<Rightarrow> int" where
  "signal_length_samples p = py_int (SIGNAL_LENGTH_SEC p * SAMPLE_RATE_HZ p)"

text \<open>
  The fields of a \<open>DataEntry\<close> that the constructor's loop and the label synthesizer
  read and write. The features and the save folder take no part in them.
\<close>

record data_entry =
  signals :: "real array2 list"
  angles :: "int list"
  noise :: "real list"
  res_signal :: "real array2"
  targets :: "real array2 list"

text \<open>
  \<open>self.res_signal+binaural_signal\<close>: both arrays have one row of two samples per
  sample of the signal, so the sum is taken cell by cell.
\<close>

definition add2 :: "real array2 \<Rightarrow> real array2 \<Rightarrow> real array2" where
  "add2 a b = Array2 (ncols a) (map2 (map2 (+)) (rows a) (rows b))"

text \<open>
  One iteration of \<open>for signal in in_signals\<close>. An exception leaves the loop with the
  object as the iteration found or left it: \<open>Inl (e, st)\<close>. The draw of
  \<open>random.choice\<close> in the \<open>k\<close>-th call of the allocator is \<open>rnd k\<close>.
  For an all-zero signal \<open>sig_rms\<close> is zero and numpy fills the signal with NaN; the
  samples of the model mean nothing there, the control flow is the one of the source.
\<close>

definition init_body ::
  "parameters \<Rightarrow> real array2 list \<Rightarrow> real array2 \<Rightarrow> (nat \<Rightarrow> nat) \<Rightarrow> real list \<Rightarrow> data_entry
     \<Rightarrow> (py_error \<times> data_entry) + data_entry" where
  "init_body p brir pos_def rnd signal0 st =
     (if int (length signal0) \<noteq> signal_length_samples p then Inl (AssertionError, st)
      else
        (let signal = normalize_signal p signal0 in
         case getRandomAngle (rnd (length (angles st))) (angles st) of
           Inl e \<Rightarrow> Inl (e, st)
         | Inr a \<Rightarrow>
             (let st1 = st\<lparr>angles := angles st @ [a]\<rparr> in
              case getBinauralSound signal brir pos_def (last (angles st1)) of
                Inl e \<Rightarrow> Inl (e, st1)
              | Inr binaural_signal \<Rightarrow>
                  Inr (st1\<lparr>signals := signals st1 @ [binaural_signal],
                           res_signal := add2 (res_signal st1) binaural_signal\<rparr>))))"

definition init_signals ::
  "parameters \<Rightarrow> real array2 list \<Rightarrow> real array2 \<Rightarrow> (nat \<Rightarrow> nat) \<Rightarrow> real list list
     \<Rightarrow> (py_error \<times> data_entry) + data_entry" where
  "init_signals p brir pos_def rnd in_signals =
     (case in_signals of
        [] \<Rightarrow> Inl (IndexError, \<lparr>signals = [], angles = [], noise = [],
                               res_signal = Array2 0 [], targets = []\<rparr>)
      | s0 # _ \<Rightarrow>
          (let st0 = \<lparr>signals = [], angles = [], noise = replicate (length s0) 0,
                      res_signal = Array2 0 [], targets = []\<rparr>
           in if signal_length_samples p < 0 then Inl (ValueError, st0)
              else for_each (init_body p brir pos_def rnd) in_signals
                     (st0\<lparr>res_signal := zeros2 (nat (signal_length_samples p)) 2\<rparr>)))"

section \<open>Label synthesizer: \<open>updateTargetsFromSignals\<close>\<close>

text \<open>A loop that builds a list from calls that may raise.\<close>

fun map_err :: "('a \<Rightarrow> 'e + 'b) \<Rightarrow> 'a list \<Rightarrow> 'e + 'b list" where
  "map_err f [] = Inr []"
| "map_err f (x # xs) =
     (case f x of
        Inl e \<Rightarrow> Inl e
      | Inr y \<Rightarrow> (case map_err f xs of Inl e \<Rightarrow> Inl e | Inr ys \<Rightarrow> Inr (y # ys)))"

text \<open>
  The body of the two nested loops, for the bin \<open>(time_ind, out_ind)\<close>. The list
  \<open>targets\<close> holds one array object per frequency channel, each made by its own call of
  \<open>numpy.zeros\<close>, so the assignment changes the array at \<open>out_ind\<close> only.
\<close>

definition updateTargets_body ::
  "parameters \<Rightarrow> real array2 list \<Rightarrow> real array2 \<Rightarrow> int list \<Rightarrow> nat \<Rightarrow> nat
     \<Rightarrow> real array2 list \<Rightarrow> py_error + real array2 list" where
  "updateTargets_body p sgrams noise_sgram self_angles out_ind time_ind targets_list =
     (case map_err (\<lambda>sgram. get2 sgram (int time_ind) (int out_ind)) sgrams of
        Inl e \<Rightarrow> Inl e
      | Inr sgram_vals \<Rightarrow>
          (case argmax sgram_vals of
             Inl e \<Rightarrow> Inl e
           | Inr max_ind \<Rightarrow>
               (let max_val = sgram_vals ! max_ind in
                if length self_angles \<le> max_ind then Inl IndexError
                else
                  (let max_angle = self_angles ! max_ind;
                       angle_ind = getAngleIdx max_angle in
                   case get2 noise_sgram (int time_ind) (int out_ind) of
                     Inl e \<Rightarrow> Inl e
                   | Inr noise_val \<Rightarrow>
                       (let noise_th = noise_val * 10 powr (SGRAM_NOISE_TH_dB p / 10) in
                        case set2 (targets_list ! out_ind) (int time_ind)
                               (if max_val < noise_th then - 1 else angle_ind) 1 of
                          Inl e \<Rightarrow> Inl e
                        | Inr target \<Rightarrow> Inr (targets_list[out_ind := target]))))))"


text \<open>
  The part of the method after the spectrograms are taken: the zero targets and the
  two loops.
\<close>

definition updateTargets_from_sgrams ::
  "parameters \<Rightarrow> real array2 list \<Rightarrow> real array2 \<Rightarrow> int list \<Rightarrow> py_error + real array2 list" where
  "updateTargets_from_sgrams p sgrams noise_sgram self_angles =
     (case sgrams of
        [] \<Rightarrow> Inl IndexError
      | s0 # _ \<Rightarrow>
          for_each
            (\<lambda>out_ind. for_each (updateTargets_body p sgrams noise_sgram self_angles out_ind)
                          [0..<shape0 s0])
            [0..<shape1 s0]
            (replicate (shape1 s0) (zeros2 (shape0 s0) (NUM_OF_DIRECTIONS p + 1))))"

text \<open>
  \<open>features.getSpectrogram\<close> belongs to another module: it is the argument
  \<open>getSpectrogram\<close>, from a signal to a (time, frequency) array.
\<close>

definition updateTargetsFromSignals ::
  "parameters \<Rightarrow> (real list \<Rightarrow> real array2) \<Rightarrow> data_entry \<Rightarrow> py_error + data_entry" where
  "updateTargetsFromSignals p getSpectrogram st =
     (case map_err (\<lambda>binaural_signal.
                      case get_col binaural_signal 0 of
                        Inl e \<Rightarrow> Inl e
                      | Inr channel \<Rightarrow> Inr (getSpectrogram channel))
             (signals st) of
        Inl e \<Rightarrow> Inl e
      | Inr sgrams \<Rightarrow>
          (let noise_sgram = getSpectrogram (noise st) in
           case updateTargets_from_sgrams p sgrams noise_sgram (angles st) of
             Inl e \<Rightarrow> Inl e
           | Inr targets' \<Rightarrow> Inr (st\<lparr>targets := targets'\<rparr>)))"

section \<open>Performance evaluator\<close>

text \<open>
  \<open>estimateNetsPerformance\<close> from the predicted arrays on: \<open>net_output\<close> is the list of
  what the networks predict, one array per frequency channel. Saving plots and
  reconstructed signals (\<open>save\<close>) writes files only. The dictionary \<open>performance\<close> has
  the two keys \<open>source_md\<close> and \<open>source_fa\<close>; \<open>/\<close> on two \<open>len\<close> values raises
  \<open>ZeroDivisionError\<close> when the divisor is zero.
\<close>

record performance =
  source_md :: real
  source_fa :: real

definition py_div :: "nat \<Rightarrow> nat \<Rightarrow> py_error + real" where
  "py_div a b = (if b = 0 then Inl ZeroDivisionError else Inr (real a / real b))"

definition performance_of :: "int list \<Rightarrow> int list \<Rightarrow> py_error + performance" where
  "performance_of self_angles angles' =
     (case py_div (length (filter (\<lambda>a. a \<notin> set angles') self_angles)) (length self_angles) of
        Inl e \<Rightarrow> Inl e
      | Inr md \<Rightarrow>
          (case py_div (length (filter (\<lambda>a. a \<notin> set self_angles) angles')) (length angles') of
             Inl e \<Rightarrow> Inl e
           | Inr fa \<Rightarrow> Inr \<lparr>source_md = md, source_fa = fa\<rparr>))"

definition estimateNetsPerformance ::
  "parameters \<Rightarrow> data_entry \<Rightarrow> real array2 list \<Rightarrow> py_error + performance" where
  "estimateNetsPerformance p st net_output =
     (case dnnTargetToMixedIbm net_output of
        Inl e \<Rightarrow> Inl e
      | Inr mixed_ibm \<Rightarrow>
          (case mixedIbmToIbms p mixed_ibm of
             (ibms, angles') \<Rightarrow> performance_of (angles st) angles'))"

section \<open>A small data entry\<close>

text \<open>
  Values on which the label synthesizer is run below: two rendered signals of two
  samples at the angles 0 and -90, silence as noise, and a stand-in for
  \<open>features.getSpectrogram\<close> with one time frame that holds the magnitude of each sample.
\<close>

definition example_parameters :: parameters where
  "example_parameters = \<lparr>SIGNAL_LENGTH_SEC = 1, SAMPLE_RATE_HZ = 2, INPUT_SIGNAL_RMS = 1,
     NUM_OF_DIRECTIONS = 37, SGRAM_NOISE_TH_dB = - 10, MIXED_IBM_IDENTIFICATION_TH = 1\<rparr>"

definition example_entry :: data_entry where
  "example_entry = \<lparr>signals = [Array2 2 [[3, 0], [1, 0]], Array2 2 [[1, 0], [2, 0]]],
     angles = [0, - 90], noise = [0, 0],
     res_signal = Array2 2 [[4, 0], [3, 0]], targets = []\<rparr>"

definition example_spectrogram :: "real list \<Rightarrow> real array2" where
  "example_spectrogram channel = Array2 (length channel) [map abs channel]"






section \<open>First index of an extremum\<close>

lemma first_min_index_less: "xs \<noteq> [] \<Longrightarrow> first_min_index xs < length xs"
  by (induction xs rule: first_min_index.induct) (auto simp: Let_def)

lemma first_min_index_le:
  "j < length xs \<Longrightarrow> xs ! first_min_index xs \<le> xs ! j"
proof (induction xs arbitrary: j rule: first_min_index.induct)
  case (3 x y ys)
  show ?case
  proof (cases j)
    case 0
    then show ?thesis by (auto simp: Let_def)
  next
    case (Suc k)
    with 3 have "(y # ys) ! first_min_index (y # ys) \<le> (y # ys) ! k" by simp
    with Suc show ?thesis by (auto simp: Let_def)
  qed
qed auto

lemma first_min_index_first:
  "j < first_min_index xs \<Longrightarrow> xs ! first_min_index xs < xs ! j"
proof (induction xs arbitrary: j rule: first_min_index.induct)
  case (3 x y ys)
  show ?case
  proof (cases j)
    case 0
    with 3 show ?thesis by (auto simp: Let_def split: if_splits)
  next
    case (Suc k)
    with 3(2) have "k < first_min_index (y # ys)" by (auto simp: Let_def split: if_splits)
    with 3(1) have "(y # ys) ! first_min_index (y # ys) < (y # ys) ! k" by simp
    with Suc 3(2) show ?thesis by (auto simp: Let_def split: if_splits)
  qed
qed auto

lemma first_max_index_less: "xs \<noteq> [] \<Longrightarrow> first_max_index xs < length xs"
  by (induction xs rule: first_max_index.induct) (auto simp: Let_def)

lemma first_max_index_ge:
  "j < length xs \<Longrightarrow> xs ! j \<le> xs ! first_max_index xs"
proof (induction xs arbitrary: j rule: first_max_index.induct)
  case (3 x y ys)
  show ?case
  proof (cases j)
    case 0
    then show ?thesis by (auto simp: Let_def)
  next
    case (Suc k)
    with 3 have "(y # ys) ! k \<le> (y # ys) ! first_max_index (y # ys)" by simp
    with Suc show ?thesis by (auto simp: Let_def)
  qed
qed auto


section \<open>Decoding a mixed class map\<close>

lemma mixedIbmToIbms_loop_acc:
  "mixedIbmToIbms_loop p m ps (ibms, angs) =
     (ibms @ map (ibm_of m)
               (map fst (filter (\<lambda>(idx, cnt). MIXED_IBM_IDENTIFICATION_TH p \<le> int cnt
                                     \<and> idx < int (NUM_OF_DIRECTIONS p)) ps)),
      angs @ map getAngleFromIdx
               (map fst (filter (\<lambda>(idx, cnt). MIXED_IBM_IDENTIFICATION_TH p \<le> int cnt
                                     \<and> idx < int (NUM_OF_DIRECTIONS p)) ps)))"
  by (induction p m ps "(ibms, angs)" arbitrary: ibms angs rule: mixedIbmToIbms_loop.induct)
     (auto simp: not_less not_le)

lemma zip_map_same: "zip u (map g u) = map (\<lambda>c. (c, g c)) u"
  by (induction u) auto

lemma mixedIbmToIbms_survivors:
  "mixedIbmToIbms p m =
     (map (ibm_of m) (surviving_classes p m), map getAngleFromIdx (surviving_classes p m))"
  by (simp add: mixedIbmToIbms_def np_unique_counts_def Let_def mixedIbmToIbms_loop_acc
        zip_map_same filter_map o_def surviving_classes_def)

lemma surviving_classes_distinct: "distinct (surviving_classes p m)"
  by (simp add: surviving_classes_def)

lemma surviving_classes_sorted: "sorted (surviving_classes p m)"
  by (simp add: surviving_classes_def sorted_wrt_filter)

lemma ibm_of_cell:
  "t < length (rows m) \<Longrightarrow> f < length (rows m ! t) \<Longrightarrow>
     rows (ibm_of m c) ! t ! f = (if rows m ! t ! f = c then 1 else 0)"
  by (simp add: ibm_of_def)

lemma ibm_of_shape: "shape0 (ibm_of m c) = shape0 m \<and> shape1 (ibm_of m c) = shape1 m"
  by (simp add: ibm_of_def shape0_def shape1_def)

section \<open>Nearest stored azimuth\<close>

text \<open>
  Claim C6. On a non-empty array of stored azimuths \<open>find_closest_idx_in_array\<close> returns
  an index in range whose entry has the least absolute difference to the query; every
  earlier entry is strictly farther, so the first of several nearest entries is
  chosen; and a query equal to a stored azimuth returns the first entry that holds it.
\<close>

theorem find_closest_idx_in_array_first_minimal:
  assumes "array \<noteq> []"
  shows "\<exists>i. find_closest_idx_in_array array val = Inr i \<and> i < length array
           \<and> (\<forall>j<length array. \<bar>array ! i - val\<bar> \<le> \<bar>array ! j - val\<bar>)
           \<and> (\<forall>j<i. \<bar>array ! i - val\<bar> < \<bar>array ! j - val\<bar>)
           \<and> (val \<in> set array \<longrightarrow> array ! i = val \<and> (\<forall>j<i. array ! j \<noteq> val))"
proof -
  let ?d = "map (\<lambda>a. \<bar>a - val\<bar>) array"
  let ?i = "first_min_index ?d"
  have ne: "?d \<noteq> []" using assms by simp
  have r: "find_closest_idx_in_array array val = Inr ?i"
    using ne by (simp add: find_closest_idx_in_array_def argmin_def)
  have lt: "?i < length array" using first_min_index_less [OF ne] by simp
  have le: "\<bar>array ! ?i - val\<bar> \<le> \<bar>array ! j - val\<bar>" if "j < length array" for j
    using first_min_index_le [of j ?d] that lt by simp
  have first: "\<bar>array ! ?i - val\<bar> < \<bar>array ! j - val\<bar>" if "j < ?i" for j
    using first_min_index_first [of j ?d] that lt by simp
  have exact: "array ! ?i = val \<and> (\<forall>j < ?i. array ! j \<noteq> val)" if "val \<in> set array"
  proof -
    from that obtain k where k: "k < length array" "array ! k = val"
      by (auto simp: in_set_conv_nth)
    from le [OF k(1)] k(2) have "array ! ?i = val" by simp
    moreover have "array ! j \<noteq> val" if "j < ?i" for j
      using first [OF that] \<open>array ! ?i = val\<close> by auto
    ultimately show ?thesis by blast
  qed
  show ?thesis using r lt le first exact by blast
qed

theorem find_closest_idx_in_array_first_minimal_witness:
  "[0, 90, 180, 270, 90] \<noteq> ([]::real list)
   \<and> find_closest_idx_in_array [0, 90, 180, 270, 90] 90 = Inr 1
   \<and> find_closest_idx_in_array [0, 90, 180, 270, 90] 135 = Inr 1"
  using find_closest_idx_in_array_first_minimal [of "[0, 90, 180, 270, 90]" 90]
  by (simp add: find_closest_idx_in_array_def argmin_def)

section \<open>Masks returned by \<open>mixedIbmToIbms\<close>\<close>

text \<open>
  Claim C8. \<open>mixedIbmToIbms\<close> returns one mask and one angle for each class value present
  in the map whose pixel count is at least \<open>MIXED_IBM_IDENTIFICATION_TH\<close> and whose index
  is below \<open>NUM_OF_DIRECTIONS\<close>, in ascending order of the class value and without
  repetition; the angle is the class value times 5 minus 90. In a class map, whose
  values are at most the noise class \<open>NUM_OF_DIRECTIONS\<close>, the second test is that the
  class is not the noise class. The mask of a class has the shape of the map and holds
  1 where the map holds the class and 0 elsewhere.
\<close>

theorem mixedIbmToIbms_emits_survivors:
  "let flat = concat (rows m);
       classes = sorted_list_of_set (set flat);
       survivors = filter (\<lambda>c. MIXED_IBM_IDENTIFICATION_TH p \<le> int (count_list flat c)
                             \<and> c < int (NUM_OF_DIRECTIONS p)) classes
   in mixedIbmToIbms p m = (map (ibm_of m) survivors, map (\<lambda>c. c * 5 - 90) survivors)
      \<and> sorted survivors \<and> distinct survivors
      \<and> ((\<forall>x\<in>set flat. x \<le> int (NUM_OF_DIRECTIONS p)) \<longrightarrow>
           survivors = filter (\<lambda>c. MIXED_IBM_IDENTIFICATION_TH p \<le> int (count_list flat c)
                                 \<and> c \<noteq> int (NUM_OF_DIRECTIONS p)) classes)
      \<and> (\<forall>c. shape0 (ibm_of m c) = shape0 m \<and> shape1 (ibm_of m c) = shape1 m
             \<and> (\<forall>t<shape0 m. \<forall>f<length (rows m ! t).
                   rows (ibm_of m c) ! t ! f = (if rows m ! t ! f = c then 1 else 0)))"
proof -
  let ?flat = "concat (rows m)"
  let ?classes = "sorted_list_of_set (set ?flat)"
  let ?P = "\<lambda>c. MIXED_IBM_IDENTIFICATION_TH p \<le> int (count_list ?flat c)
                \<and> c < int (NUM_OF_DIRECTIONS p)"
  let ?Q = "\<lambda>c. MIXED_IBM_IDENTIFICATION_TH p \<le> int (count_list ?flat c)
                \<and> c \<noteq> int (NUM_OF_DIRECTIONS p)"
  have cl: "?classes = sort (remdups ?flat)"
    by (rule sorted_list_of_set_sort_remdups)
  have sv: "filter ?P ?classes = surviving_classes p m"
    by (simp only: surviving_classes_def cl)
  have ang: "getAngleFromIdx = (\<lambda>c. c * 5 - 90)"
    by (auto simp: getAngleFromIdx_def)
  have a: "mixedIbmToIbms p m =
             (map (ibm_of m) (filter ?P ?classes), map (\<lambda>c. c * 5 - 90) (filter ?P ?classes))"
    by (simp only: sv mixedIbmToIbms_survivors ang)
  have b: "sorted (filter ?P ?classes)" "distinct (filter ?P ?classes)"
    by (simp_all only: sv surviving_classes_sorted surviving_classes_distinct)
  have c: "filter ?P ?classes = filter ?Q ?classes"
    if "\<forall>x\<in>set ?flat. x \<le> int (NUM_OF_DIRECTIONS p)"
  proof (rule filter_cong [OF refl])
    fix x assume "x \<in> set ?classes"
    then have "x \<in> set ?flat" by simp
    with that have "x \<le> int (NUM_OF_DIRECTIONS p)" by blast
    then show "?P x = ?Q x" by auto
  qed
  have d: "shape0 (ibm_of m c) = shape0 m \<and> shape1 (ibm_of m c) = shape1 m
             \<and> (\<forall>t<shape0 m. \<forall>f<length (rows m ! t).
                   rows (ibm_of m c) ! t ! f = (if rows m ! t ! f = c then 1 else 0))" for c
    using ibm_of_shape [of m c] by (simp add: ibm_of_cell shape0_def)
  show ?thesis
    unfolding Let_def using a b c d by blast
qed

theorem mixedIbmToIbms_emits_survivors_witness:
  "mixedIbmToIbms \<lparr>SIGNAL_LENGTH_SEC = 1, SAMPLE_RATE_HZ = 4, INPUT_SIGNAL_RMS = 1,
      NUM_OF_DIRECTIONS = 37, SGRAM_NOISE_TH_dB = 0, MIXED_IBM_IDENTIFICATION_TH = 2\<rparr>
     (Array2 3 [[20, 37, 4], [4, 37, 4], [20, 9, 37]])
   = ([Array2 3 [[0, 0, 1], [1, 0, 1], [0, 0, 0]], Array2 3 [[1, 0, 0], [0, 0, 0], [1, 0, 0]]],
      [- 70, 10])"
  using mixedIbmToIbms_emits_survivors
    [of "Array2 3 [[20, 37, 4], [4, 37, 4], [20, 9, 37]]"
        "\<lparr>SIGNAL_LENGTH_SEC = 1, SAMPLE_RATE_HZ = 4, INPUT_SIGNAL_RMS = 1,
          NUM_OF_DIRECTIONS = 37, SGRAM_NOISE_TH_dB = 0, MIXED_IBM_IDENTIFICATION_TH = 2\<rparr>"]
  by (simp add: Let_def ibm_of_def sorted_list_of_set_sort_remdups)

text \<open>
  Claim C10. Two masks at different positions of the list that \<open>mixedIbmToIbms\<close> returns
  never both hold 1 at the same bin.
\<close>

theorem mixedIbmToIbms_masks_disjoint:
  assumes "mixedIbmToIbms p m = (ibms, angs)"
    and "i < j" and "j < length ibms"
    and "t < shape0 m" and "f < length (rows m ! t)"
  shows "\<not> (rows (ibms ! i) ! t ! f = 1 \<and> rows (ibms ! j) ! t ! f = 1)"
proof -
  let ?S = "surviving_classes p m"
  from assms(1) have ibms: "ibms = map (ibm_of m) ?S"
    by (simp add: mixedIbmToIbms_survivors)
  with assms(2,3) have ij: "i < length ?S" "j < length ?S" "i \<noteq> j" by auto
  then have ne: "?S ! i \<noteq> ?S ! j"
    using surviving_classes_distinct [of p m] by (simp add: nth_eq_iff_index_eq)
  have ci: "rows (ibms ! i) ! t ! f = (if rows m ! t ! f = ?S ! i then 1 else 0)"
    using ibms ij(1) assms(4,5) by (simp add: ibm_of_cell shape0_def)
  have cj: "rows (ibms ! j) ! t ! f = (if rows m ! t ! f = ?S ! j then 1 else 0)"
    using ibms ij(2) assms(4,5) by (simp add: ibm_of_cell shape0_def)
  show ?thesis using ci cj ne by auto
qed

theorem mixedIbmToIbms_masks_disjoint_witness:
  "fst (mixedIbmToIbms \<lparr>SIGNAL_LENGTH_SEC = 1, SAMPLE_RATE_HZ = 4, INPUT_SIGNAL_RMS = 1,
          NUM_OF_DIRECTIONS = 37, SGRAM_NOISE_TH_dB = 0, MIXED_IBM_IDENTIFICATION_TH = 2\<rparr>
        (Array2 3 [[20, 37, 4], [4, 37, 4], [20, 9, 37]]))
     = [Array2 3 [[0, 0, 1], [1, 0, 1], [0, 0, 0]], Array2 3 [[1, 0, 0], [0, 0, 0], [1, 0, 0]]]
   \<and> \<not> (rows ([Array2 3 [[0, 0, 1], [1, 0, 1], [0, 0, 0]],
                   Array2 3 [[1, 0, 0], [0, 0, 0], [1, 0, 0::int]]] ! 0) ! 0 ! 2 = 1
          \<and> rows ([Array2 3 [[0, 0, 1], [1, 0, 1], [0, 0, 0]],
                    Array2 3 [[1, 0, 0], [0, 0, 0], [1, 0, 0::int]]] ! 1) ! 0 ! 2 = 1)"
proof -
  let ?p = "\<lparr>SIGNAL_LENGTH_SEC = 1, SAMPLE_RATE_HZ = 4, INPUT_SIGNAL_RMS = 1,
          NUM_OF_DIRECTIONS = 37, SGRAM_NOISE_TH_dB = 0, MIXED_IBM_IDENTIFICATION_TH = 2\<rparr>"
  let ?m = "Array2 3 [[20, 37, 4], [4, 37, 4], [20, 9, 37]]"
  have e: "mixedIbmToIbms ?p ?m
     = ([Array2 3 [[0, 0, 1], [1, 0, 1], [0, 0, 0]], Array2 3 [[1, 0, 0], [0, 0, 0], [1, 0, 0]]],
        [- 70, 10])"
    by (simp add: mixedIbmToIbms_def np_unique_counts_def Let_def ibm_of_def getAngleFromIdx_def)
  have d: "\<not> (rows ([Array2 3 [[0, 0, 1], [1, 0, 1], [0, 0, 0]],
                   Array2 3 [[1, 0, 0], [0, 0, 0], [1, 0, 0::int]]] ! 0) ! 0 ! 2 = 1
          \<and> rows ([Array2 3 [[0, 0, 1], [1, 0, 1], [0, 0, 0]],
                    Array2 3 [[1, 0, 0], [0, 0, 0], [1, 0, 0::int]]] ! 1) ! 0 ! 2 = 1)"
    by (rule mixedIbmToIbms_masks_disjoint [OF e, of 0 1 0 2]) (simp_all add: shape0_def)
  show ?thesis using e d by simp
qed

section \<open>Loops\<close>

lemma for_each_append:
  "for_each body (xs @ ys) s =
     (case for_each body xs s of Inl e \<Rightarrow> Inl e | Inr s' \<Rightarrow> for_each body ys s')"
  by (induction xs arbitrary: s) (auto split: sum.splits)

lemma for_each_snoc:
  "for_each body (xs @ [x]) s =
     (case for_each body xs s of Inl e \<Rightarrow> Inl e | Inr s' \<Rightarrow> body x s')"
  by (simp add: for_each_append split: sum.splits)

lemma for_each_upt_invariant:
  assumes "for_each body [0..<n] s = Inr s'"
    and "P 0 s"
    and "\<And>i t t'. i < n \<Longrightarrow> P i t \<Longrightarrow> body i t = Inr t' \<Longrightarrow> P (Suc i) t'"
  shows "P n s'"
  using assms
proof (induction n arbitrary: s')
  case 0
  then show ?case by simp
next
  case (Suc n)
  from Suc.prems(1) obtain t where t: "for_each body [0..<n] s = Inr t" "body n t = Inr s'"
    by (auto simp: for_each_snoc split: sum.splits)
  have "P n t"
    by (rule Suc.IH [OF t(1) Suc.prems(2)]) (auto intro: Suc.prems(3))
  then show ?case using t(2) Suc.prems(3) by blast
qed

lemma for_each_upt_total:
  assumes "P 0 s"
    and "\<And>i t. i < n \<Longrightarrow> P i t \<Longrightarrow> \<exists>t'. body i t = Inr t' \<and> P (Suc i) t'"
  shows "\<exists>s'. for_each body [0..<n] s = Inr s' \<and> P n s'"
  using assms
proof (induction n)
  case 0
  then show ?case by simp
next
  case (Suc n)
  have "\<exists>t. for_each body [0..<n] s = Inr t \<and> P n t"
    by (rule Suc.IH [OF Suc.prems(1)]) (auto intro: Suc.prems(2))
  then obtain t where t: "for_each body [0..<n] s = Inr t" "P n t" by blast
  from Suc.prems(2) [OF _ t(2)] obtain t' where "body n t = Inr t'" "P (Suc n) t'" by auto
  with t(1) show ?case by (simp add: for_each_snoc)
qed

section \<open>Angles of a data entry\<close>

lemma angles_list_eq: "angles_list = map (\<lambda>k. 5 * int k - 90) [0..<37]"
  by (simp add: angles_list_def py_range_def)

lemma angles_list_set: "set angles_list = {a. - 90 \<le> a \<and> a \<le> 90 \<and> a mod 5 = 0}"
proof (rule set_eqI, rule iffI)
  fix a assume "a \<in> set angles_list"
  then obtain k where "k < 37" "a = 5 * int k - 90"
    by (auto simp: angles_list_eq)
  then show "a \<in> {a. - 90 \<le> a \<and> a \<le> 90 \<and> a mod 5 = 0}" by auto
next
  fix a :: int assume "a \<in> {a. - 90 \<le> a \<and> a \<le> 90 \<and> a mod 5 = 0}"
  then have a: "- 90 \<le> a" "a \<le> 90" "a mod 5 = 0" by auto
  define k where "k = nat ((a + 90) div 5)"
  have "k < 37" using a by (auto simp: k_def)
  moreover have "a = 5 * int k - 90" using a by (auto simp: k_def)
  ultimately show "a \<in> set angles_list" by (auto simp: angles_list_eq)
qed

lemma getRandomAngle_Inr:
  assumes "getRandomAngle r forbidden = Inr a"
  shows "a \<in> set angles_list \<and> a \<notin> set forbidden"
proof -
  let ?poss = "filter (\<lambda>angle. angle \<notin> set forbidden) angles_list"
  from assms have ne: "?poss \<noteq> []" and a: "a = ?poss ! (r mod length ?poss)"
    by (auto simp: getRandomAngle_def Let_def split: if_splits)
  from ne have "r mod length ?poss < length ?poss" by simp
  then have "a \<in> set ?poss" unfolding a by (rule nth_mem)
  then show ?thesis by simp
qed


lemma init_body_angles_Inr:
  assumes "init_body p brir pos_def rnd sig st = Inr st'"
    and "distinct (angles st) \<and> set (angles st) \<subseteq> set angles_list"
  shows "(distinct (angles st') \<and> set (angles st') \<subseteq> set angles_list)
           \<and> length (angles st') = Suc (length (angles st))"
  using assms
  by (auto simp: init_body_def Let_def split: if_splits sum.splits dest: getRandomAngle_Inr)

lemma init_body_angles_Inl:
  assumes "init_body p brir pos_def rnd sig st = Inl (e, st')"
    and "distinct (angles st) \<and> set (angles st) \<subseteq> set angles_list"
  shows "distinct (angles st') \<and> set (angles st') \<subseteq> set angles_list"
  using assms
  by (auto simp: init_body_def Let_def split: if_splits sum.splits dest: getRandomAngle_Inr)

lemma for_each_init_body_angles:
  assumes "distinct (angles st) \<and> set (angles st) \<subseteq> set angles_list"
  shows "(for_each (init_body p brir pos_def rnd) xs st = Inr st' \<longrightarrow>
            (distinct (angles st') \<and> set (angles st') \<subseteq> set angles_list)
            \<and> length (angles st') = length (angles st) + length xs)
       \<and> (for_each (init_body p brir pos_def rnd) xs st = Inl (e, st') \<longrightarrow>
            distinct (angles st') \<and> set (angles st') \<subseteq> set angles_list)"
  using assms
proof (induction xs arbitrary: st)
  case Nil
  then show ?case by auto
next
  case (Cons x xs)
  show ?case
  proof (cases "init_body p brir pos_def rnd x st")
    case (Inl a)
    then show ?thesis using Cons.prems init_body_angles_Inl [of p brir pos_def rnd x st]
      by (cases a) auto
  next
    case (Inr st1)
    then have "distinct (angles st1) \<and> set (angles st1) \<subseteq> set angles_list"
      "length (angles st1) = Suc (length (angles st))"
      using init_body_angles_Inr [OF Inr Cons.prems] by auto
    with Cons.IH [of st1] Inr show ?thesis by auto
  qed
qed

lemma init_signals_angles:
  "(init_signals p brir pos_def rnd in_signals = Inr st \<longrightarrow>
      (distinct (angles st) \<and> set (angles st) \<subseteq> set angles_list)
      \<and> length (angles st) = length in_signals)
   \<and> (init_signals p brir pos_def rnd in_signals = Inl (e, st) \<longrightarrow>
      distinct (angles st) \<and> set (angles st) \<subseteq> set angles_list)"
proof (cases in_signals)
  case Nil
  then show ?thesis by (auto simp: init_signals_def)
next
  case (Cons s0 rest)
  let ?st0 = "\<lparr>signals = [], angles = [], noise = replicate (length s0) 0,
                res_signal = Array2 0 [], targets = []\<rparr>"
  let ?st1 = "?st0\<lparr>res_signal := zeros2 (nat (signal_length_samples p)) 2\<rparr>"
  show ?thesis
  proof (cases "signal_length_samples p < 0")
    case True
    with Cons show ?thesis by (auto simp: init_signals_def Let_def)
  next
    case False
    have ok: "distinct (angles ?st1) \<and> set (angles ?st1) \<subseteq> set angles_list" by simp
    have eq: "init_signals p brir pos_def rnd in_signals =
                for_each (init_body p brir pos_def rnd) in_signals ?st1"
      using Cons False by (simp add: init_signals_def Let_def)
    show ?thesis
      using for_each_init_body_angles [OF ok, of p brir pos_def rnd in_signals st e]
      unfolding eq by simp
  qed
qed

lemma sqrt_16: "sqrt 16 = 4"
  by (rule real_sqrt_unique) simp_all


lemma zeros2_4_2: "zeros2 4 2 = Array2 2 [[0, 0], [0, 0], [0, 0], [0, 0]]"
  by (simp add: zeros2_def numeral_eq_Suc)

lemma init_signals_two_signals:
  "init_signals \<lparr>SIGNAL_LENGTH_SEC = 1, SAMPLE_RATE_HZ = 4, INPUT_SIGNAL_RMS = 1,
        NUM_OF_DIRECTIONS = 37, SGRAM_NOISE_TH_dB = - 10, MIXED_IBM_IDENTIFICATION_TH = 2\<rparr>
     [Array2 1 [[1], [1]], Array2 1 [[1], [0]]] (Array2 3 [[0, 0, 1], [270, 0, 1]])
     (\<lambda>k. if k = 0 then 18 else 0) [[2, 2, 2, 2], [2, 2, 2, 2]]
   = Inr \<lparr>signals = [Array2 2 [[2, 2], [2, 2], [2, 2], [2, 2]],
                      Array2 2 [[2, 0], [2, 0], [2, 0], [2, 0]]],
          angles = [0, - 90], noise = [0, 0, 0, 0],
          res_signal = Array2 2 [[4, 2], [4, 2], [4, 2], [4, 2]], targets = []\<rparr>"
  by (simp add: init_signals_def init_body_def signal_length_samples_def py_int_def Let_def
      zeros2_4_2 add2_def normalize_signal_def getArrayRms_def linalg_norm_def sqrt_16
      getRandomAngle_def angles_list_eq upt_conv_Cons
      getBinauralSound_def get_col_def shape1_def shape0_def find_closest_idx_in_array_def
      argmin_def get_row_def np_index_def convolve_same_def convolve_full_def)

text \<open>
  Claim C9. An angle that \<open>getRandomAngle\<close> returns is none of the forbidden angles and
  lies on the grid from -90 to 90 in steps of 5. The constructor passes the angles
  allocated so far as the forbidden list of each call, so the angles of a data entry
  are pairwise different grid angles, one per input signal; this holds as well for the
  angles allocated when the constructor raises.
\<close>

theorem allocated_angles_distinct_on_grid:
  "(getRandomAngle r forbidden = Inr a \<longrightarrow>
      a \<notin> set forbidden \<and> - 90 \<le> a \<and> a \<le> 90 \<and> a mod 5 = 0)
   \<and> (init_signals p brir pos_def rnd in_signals = Inr st \<longrightarrow>
      distinct (angles st) \<and> length (angles st) = length in_signals
      \<and> (\<forall>a\<in>set (angles st). - 90 \<le> a \<and> a \<le> 90 \<and> a mod 5 = 0))
   \<and> (init_signals p brir pos_def rnd in_signals = Inl (e, st) \<longrightarrow>
      distinct (angles st) \<and> (\<forall>a\<in>set (angles st). - 90 \<le> a \<and> a \<le> 90 \<and> a mod 5 = 0))"
  using getRandomAngle_Inr [of r forbidden a]
    init_signals_angles [of p brir pos_def rnd in_signals st e]
  unfolding angles_list_set by blast

theorem allocated_angles_distinct_on_grid_witness:
  "init_signals \<lparr>SIGNAL_LENGTH_SEC = 1, SAMPLE_RATE_HZ = 4, INPUT_SIGNAL_RMS = 1,
        NUM_OF_DIRECTIONS = 37, SGRAM_NOISE_TH_dB = - 10, MIXED_IBM_IDENTIFICATION_TH = 2\<rparr>
     [Array2 1 [[1], [1]], Array2 1 [[1], [0]]] (Array2 3 [[0, 0, 1], [270, 0, 1]])
     (\<lambda>k. if k = 0 then 18 else 0) [[2, 2, 2, 2], [2, 2, 2, 2]]
   = Inr \<lparr>signals = [Array2 2 [[2, 2], [2, 2], [2, 2], [2, 2]],
                      Array2 2 [[2, 0], [2, 0], [2, 0], [2, 0]]],
          angles = [0, - 90], noise = [0, 0, 0, 0],
          res_signal = Array2 2 [[4, 2], [4, 2], [4, 2], [4, 2]], targets = []\<rparr>
   \<and> distinct [0, - 90 :: int]
   \<and> getRandomAngle 0 [0] = Inr (- 90) \<and> - 90 \<notin> set [0::int]"
  using init_signals_two_signals allocated_angles_distinct_on_grid [of 0 "[0]" "- 90"
     "\<lparr>SIGNAL_LENGTH_SEC = 1, SAMPLE_RATE_HZ = 4, INPUT_SIGNAL_RMS = 1,
        NUM_OF_DIRECTIONS = 37, SGRAM_NOISE_TH_dB = - 10, MIXED_IBM_IDENTIFICATION_TH = 2\<rparr>"
     "[Array2 1 [[1], [1]], Array2 1 [[1], [0]]]" "Array2 3 [[0, 0, 1], [270, 0, 1]]"
     "\<lambda>k. if k = 0 then 18 else 0" "[[2, 2, 2, 2], [2, 2, 2, 2]]"]
  by (simp add: getRandomAngle_def angles_list_eq upt_conv_Cons)

section \<open>Normalisation of the input signals\<close>

lemma sum_list_scaled_squares:
  "(\<Sum>x\<leftarrow>xs. (x / r * c)\<^sup>2) = (c / r)\<^sup>2 * (\<Sum>x\<leftarrow>xs. x\<^sup>2)" for r c :: real
  by (induction xs) (simp_all add: power_mult_distrib power_divide algebra_simps)

lemma sum_list_squares_pos:
  "\<exists>x\<in>set xs. x \<noteq> 0 \<Longrightarrow> 0 < (\<Sum>x\<leftarrow>xs. x\<^sup>2)" for xs :: "real list"
proof (induction xs)
  case Nil
  then show ?case by simp
next
  case (Cons a xs)
  have nn: "0 \<le> (\<Sum>x\<leftarrow>xs. x\<^sup>2)" by (rule sum_list_nonneg) auto
  show ?case
  proof (cases "a = 0")
    case True
    with Cons show ?thesis by auto
  next
    case False
    then have "0 < a\<^sup>2" by simp
    from add_pos_nonneg [OF this nn] show ?thesis by simp
  qed
qed

lemma rms_normalize_signal:
  assumes "\<exists>x\<in>set signal. x \<noteq> 0"
  shows "rms (normalize_signal p signal) = \<bar>INPUT_SIGNAL_RMS p\<bar> * sqrt (linalg_norm signal)"
proof -
  define S where "S = (\<Sum>x\<leftarrow>signal. x\<^sup>2)"
  define n where "n = real (length signal)"
  define q where "q = sqrt S"
  define c where "c = INPUT_SIGNAL_RMS p"
  have S: "0 < S" unfolding S_def by (rule sum_list_squares_pos [OF assms])
  have n: "0 < n" using assms by (auto simp: n_def)
  have q: "0 < q" "S = q * q" using S by (simp_all add: q_def)
  have r: "getArrayRms signal = sqrt (q / n)"
    by (simp add: getArrayRms_def linalg_norm_def S_def n_def q_def)
  have rpos: "0 < sqrt (q / n)" using q n by simp
  have ns: "normalize_signal p signal = map (\<lambda>x. x / sqrt (q / n) * c) signal"
    by (simp only: normalize_signal_def Let_def r c_def)
  have sq: "(\<Sum>x\<leftarrow>normalize_signal p signal. x\<^sup>2) = (c / sqrt (q / n))\<^sup>2 * S"
    unfolding ns S_def map_map o_def by (rule sum_list_scaled_squares)
  have len: "real (length (normalize_signal p signal)) = n"
    by (simp add: ns n_def)
  have "rms (normalize_signal p signal) = sqrt ((c / sqrt (q / n))\<^sup>2 * S / n)"
    by (simp only: rms_def sq len)
  also have "(c / sqrt (q / n))\<^sup>2 * S / n = c\<^sup>2 * q"
  proof -
    have "(c / sqrt (q / n))\<^sup>2 = c\<^sup>2 / (q / n)"
      using q n by (simp add: power_divide)
    then show ?thesis using q n by (simp add: field_simps)
  qed
  also have "sqrt (c\<^sup>2 * q) = \<bar>c\<bar> * sqrt q"
    by (simp add: real_sqrt_mult)
  finally show ?thesis by (simp add: c_def q_def linalg_norm_def S_def)
qed

text \<open>
  Claim C3. The claim is that the normalised signal has root mean square
  \<open>INPUT_SIGNAL_RMS\<close>. \<open>getArrayRms\<close> divides the norm by the size before the square root,
  which is not the root mean square, so the root mean square of the normalised signal
  is the reference level times the square root of the norm of the input: for the
  signal \<open>[2, 2, 2, 2]\<close> and reference level 1 it is 2.
\<close>

theorem normalized_signal_rms_is_scaled:
  assumes "\<exists>x\<in>set signal. x \<noteq> 0"
  shows "rms (normalize_signal p signal) = \<bar>INPUT_SIGNAL_RMS p\<bar> * sqrt (linalg_norm signal)"
  by (rule rms_normalize_signal [OF assms])

theorem normalized_signal_rms_is_scaled_witness:
  "(\<exists>x\<in>set [2, 2, 2, 2::real]. x \<noteq> 0)
   \<and> rms (normalize_signal \<lparr>SIGNAL_LENGTH_SEC = 1, SAMPLE_RATE_HZ = 4, INPUT_SIGNAL_RMS = 1,
        NUM_OF_DIRECTIONS = 37, SGRAM_NOISE_TH_dB = - 10, MIXED_IBM_IDENTIFICATION_TH = 2\<rparr>
        [2, 2, 2, 2]) = 2
   \<and> INPUT_SIGNAL_RMS \<lparr>SIGNAL_LENGTH_SEC = 1, SAMPLE_RATE_HZ = 4, INPUT_SIGNAL_RMS = 1,
        NUM_OF_DIRECTIONS = 37, SGRAM_NOISE_TH_dB = - 10, MIXED_IBM_IDENTIFICATION_TH = 2\<rparr> = 1"
proof -
  have h: "\<exists>x\<in>set [2, 2, 2, 2::real]. x \<noteq> 0" by simp
  have s16: "sqrt 16 = 4" by (rule real_sqrt_unique) simp_all
  show ?thesis
    using h normalized_signal_rms_is_scaled [OF h, of "\<lparr>SIGNAL_LENGTH_SEC = 1, SAMPLE_RATE_HZ = 4,
        INPUT_SIGNAL_RMS = 1, NUM_OF_DIRECTIONS = 37, SGRAM_NOISE_TH_dB = - 10,
        MIXED_IBM_IDENTIFICATION_TH = 2\<rparr>"]
    by (simp add: linalg_norm_def s16)
qed

section \<open>Length check of the constructor\<close>

lemma init_signals_wrong_second:
  "init_signals \<lparr>SIGNAL_LENGTH_SEC = 1, SAMPLE_RATE_HZ = 4, INPUT_SIGNAL_RMS = 1,
        NUM_OF_DIRECTIONS = 37, SGRAM_NOISE_TH_dB = - 10, MIXED_IBM_IDENTIFICATION_TH = 2\<rparr>
     [Array2 1 [[1], [1]], Array2 1 [[1], [0]]] (Array2 3 [[0, 0, 1], [270, 0, 1]])
     (\<lambda>k. if k = 0 then 18 else 0) [[2, 2, 2, 2], [2, 2]]
   = Inl (AssertionError,
          \<lparr>signals = [Array2 2 [[2, 2], [2, 2], [2, 2], [2, 2]]],
          angles = [0], noise = [0, 0, 0, 0],
          res_signal = Array2 2 [[2, 2], [2, 2], [2, 2], [2, 2]], targets = []\<rparr>)"
  by (simp add: init_signals_def init_body_def signal_length_samples_def py_int_def Let_def
      zeros2_4_2 add2_def normalize_signal_def getArrayRms_def linalg_norm_def sqrt_16
      getRandomAngle_def angles_list_eq upt_conv_Cons
      getBinauralSound_def get_col_def shape1_def shape0_def find_closest_idx_in_array_def
      argmin_def get_row_def np_index_def convolve_same_def convolve_full_def)

lemma getRandomAngle_not_assertion: "getRandomAngle r forbidden \<noteq> Inl AssertionError"
  by (simp add: getRandomAngle_def Let_def)

lemma np_index_not_assertion: "np_index n i \<noteq> Inl AssertionError"
  by (simp add: np_index_def)

lemma get_row_not_assertion: "get_row a i \<noteq> Inl AssertionError"
  using np_index_not_assertion [of "shape0 a" i]
  by (auto simp: get_row_def split: sum.splits)

lemma convolve_same_not_assertion: "convolve_same a b \<noteq> Inl AssertionError"
  by (simp add: convolve_same_def)

lemma find_closest_not_assertion: "find_closest_idx_in_array a v \<noteq> Inl AssertionError"
  by (simp add: find_closest_idx_in_array_def argmin_def)

lemma get_col_not_assertion: "get_col a j \<noteq> Inl AssertionError"
  by (simp add: get_col_def)

lemma getBinauralSound_not_assertion:
  "getBinauralSound audio_in brir pos_def angle \<noteq> Inl AssertionError"
  using get_col_not_assertion [of pos_def 0] find_closest_not_assertion
    get_row_not_assertion convolve_same_not_assertion
  by (auto simp: getBinauralSound_def Let_def split: sum.splits if_splits)

lemma init_body_right_length:
  assumes "int (length sig) = signal_length_samples p"
  shows "(init_body p brir pos_def rnd sig st = Inr st' \<longrightarrow>
            length (signals st') = Suc (length (signals st)))
       \<and> (init_body p brir pos_def rnd sig st = Inl (e, st') \<longrightarrow>
            e \<noteq> AssertionError \<and> length (signals st') = length (signals st))"
  using assms getRandomAngle_not_assertion getBinauralSound_not_assertion
  by (auto simp: init_body_def Let_def split: sum.splits)

lemma init_body_wrong_length:
  assumes "int (length sig) \<noteq> signal_length_samples p"
  shows "init_body p brir pos_def rnd sig st = Inl (AssertionError, st)"
  using assms by (simp add: init_body_def)

lemma for_each_init_body_right_lengths:
  assumes "\<forall>s\<in>set xs. int (length s) = signal_length_samples p"
  shows "(for_each (init_body p brir pos_def rnd) xs st = Inr st' \<longrightarrow>
            length (signals st') = length (signals st) + length xs)
       \<and> (for_each (init_body p brir pos_def rnd) xs st = Inl (e, st') \<longrightarrow>
            e \<noteq> AssertionError \<and> length (signals st') < length (signals st) + length xs)"
  using assms
proof (induction xs arbitrary: st)
  case Nil
  then show ?case by auto
next
  case (Cons x xs)
  then have x: "int (length x) = signal_length_samples p"
    and xs: "\<forall>s\<in>set xs. int (length s) = signal_length_samples p" by auto
  show ?case
  proof (cases "init_body p brir pos_def rnd x st")
    case (Inl a)
    then show ?thesis using init_body_right_length [OF x, of brir pos_def rnd st st' e]
      by (cases a) auto
  next
    case (Inr st1)
    then have "length (signals st1) = Suc (length (signals st))"
      using init_body_right_length [OF x, of brir pos_def rnd st st1 e] by auto
    with Cons.IH [OF xs, of st1] Inr show ?thesis by auto
  qed
qed

text \<open>
  Claim C5, as amended. When the first signal of wrong length comes after the signals
  \<open>pre\<close>, the constructor raises, and no signal at or after the wrong one is rendered:
  the object holds at most as many rendered signals as \<open>pre\<close> has. The length of a
  signal is asserted at the start of its own iteration: when the assertion is what
  fails, every signal of \<open>pre\<close> has been rendered and accumulated before, and the
  assertion is what fails whenever the signals of \<open>pre\<close> render without exception.
\<close>

theorem init_signals_length_mismatch:
  assumes "int (length bad) \<noteq> signal_length_samples p"
    and "\<forall>s\<in>set pre. int (length s) = signal_length_samples p"
  shows "\<exists>e st. init_signals p brir pos_def rnd (pre @ bad # post) = Inl (e, st)
           \<and> length (signals st) \<le> length pre
           \<and> (e = AssertionError \<longrightarrow> length (signals st) = length pre)
           \<and> (pre = [] \<and> 0 \<le> signal_length_samples p \<longrightarrow> e = AssertionError)
           \<and> (\<forall>st'. init_signals p brir pos_def rnd pre = Inr st' \<longrightarrow>
                  e = AssertionError \<and> st = st')"
proof (cases "signal_length_samples p < 0")
  case True
  have "pre = []"
  proof (cases pre)
    case (Cons s0 rest)
    with assms(2) True show ?thesis by auto
  qed simp
  with True show ?thesis
    by (auto simp: init_signals_def Let_def)
next
  case False
  define s0 where "s0 = hd (pre @ [bad])"
  define st1 where "st1 = \<lparr>signals = [], angles = [], noise = replicate (length s0) (0::real),
       res_signal = Array2 0 [], targets = []\<rparr>\<lparr>res_signal := zeros2 (nat (signal_length_samples p)) 2\<rparr>"
  have full: "init_signals p brir pos_def rnd (pre @ bad # post) =
                for_each (init_body p brir pos_def rnd) (pre @ bad # post) st1"
    using False by (cases pre) (simp_all add: init_signals_def Let_def s0_def st1_def)
  have part: "init_signals p brir pos_def rnd pre =
                for_each (init_body p brir pos_def rnd) pre st1" if "pre \<noteq> []"
    using False that by (cases pre) (simp_all add: init_signals_def Let_def s0_def st1_def)
  have sig1: "length (signals st1) = 0" by (simp add: st1_def)
  show ?thesis
  proof (cases "for_each (init_body p brir pos_def rnd) pre st1")
    case (Inl a)
    obtain e st where a: "a = (e, st)" by (cases a)
    from for_each_init_body_right_lengths [OF assms(2), of brir pos_def rnd st1 st e] Inl a sig1
    have e: "e \<noteq> AssertionError" "length (signals st) < length pre" by auto
    have ne: "pre \<noteq> []" using Inl by auto
    have "init_signals p brir pos_def rnd (pre @ bad # post) = Inl (e, st)"
      using Inl a by (simp add: full for_each_append)
    moreover have "init_signals p brir pos_def rnd pre = Inl (e, st)"
      using Inl a part [OF ne] by simp
    ultimately show ?thesis using e ne by auto
  next
    case (Inr st2)
    from for_each_init_body_right_lengths [OF assms(2), of brir pos_def rnd st1 st2 AssertionError]
      Inr sig1
    have len: "length (signals st2) = length pre" by auto
    have r: "init_signals p brir pos_def rnd (pre @ bad # post) = Inl (AssertionError, st2)"
      using Inr init_body_wrong_length [OF assms(1), of brir pos_def rnd st2]
      by (simp add: full for_each_append)
    have "st' = st2" if "init_signals p brir pos_def rnd pre = Inr st'" for st'
    proof -
      from that have "pre \<noteq> []" by (auto simp: init_signals_def)
      from part [OF this] that Inr show ?thesis by simp
    qed
    with r len show ?thesis by auto
  qed
qed

theorem init_signals_length_mismatch_witness:
  "int (length [2, 2::real]) \<noteq> signal_length_samples \<lparr>SIGNAL_LENGTH_SEC = 1, SAMPLE_RATE_HZ = 4,
        INPUT_SIGNAL_RMS = 1, NUM_OF_DIRECTIONS = 37, SGRAM_NOISE_TH_dB = - 10,
        MIXED_IBM_IDENTIFICATION_TH = 2\<rparr>
   \<and> int (length [2, 2, 2, 2::real]) = signal_length_samples
        \<lparr>SIGNAL_LENGTH_SEC = 1, SAMPLE_RATE_HZ = 4,
        INPUT_SIGNAL_RMS = 1, NUM_OF_DIRECTIONS = 37, SGRAM_NOISE_TH_dB = - 10,
        MIXED_IBM_IDENTIFICATION_TH = 2\<rparr>
   \<and> (\<exists>st. init_signals \<lparr>SIGNAL_LENGTH_SEC = 1, SAMPLE_RATE_HZ = 4, INPUT_SIGNAL_RMS = 1,
        NUM_OF_DIRECTIONS = 37, SGRAM_NOISE_TH_dB = - 10, MIXED_IBM_IDENTIFICATION_TH = 2\<rparr>
        [Array2 1 [[1], [1]], Array2 1 [[1], [0]]] (Array2 3 [[0, 0, 1], [270, 0, 1]])
        (\<lambda>k. if k = 0 then 18 else 0) ([[2, 2, 2, 2]] @ [2, 2] # [])
          = Inl (AssertionError, st)
        \<and> length (signals st) = length [[2, 2, 2, 2::real]])"
proof -
  let ?p = "\<lparr>SIGNAL_LENGTH_SEC = 1, SAMPLE_RATE_HZ = 4, INPUT_SIGNAL_RMS = 1,
        NUM_OF_DIRECTIONS = 37, SGRAM_NOISE_TH_dB = - 10, MIXED_IBM_IDENTIFICATION_TH = 2\<rparr>"
  have h1: "int (length [2, 2::real]) \<noteq> signal_length_samples ?p"
    by (simp add: signal_length_samples_def py_int_def)
  have h2: "\<forall>s\<in>set [[2, 2, 2, 2::real]]. int (length s) = signal_length_samples ?p"
    by (simp add: signal_length_samples_def py_int_def)
  have e: "init_signals ?p [Array2 1 [[1], [1]], Array2 1 [[1], [0]]]
             (Array2 3 [[0, 0, 1], [270, 0, 1]]) (\<lambda>k. if k = 0 then 18 else 0) [[2, 2, 2, 2]]
           = Inr \<lparr>signals = [Array2 2 [[2, 2], [2, 2], [2, 2], [2, 2]]],
                  angles = [0], noise = [0, 0, 0, 0],
                  res_signal = Array2 2 [[2, 2], [2, 2], [2, 2], [2, 2]], targets = []\<rparr>"
    by (simp add: init_signals_def init_body_def signal_length_samples_def py_int_def Let_def
      zeros2_4_2 add2_def normalize_signal_def getArrayRms_def linalg_norm_def sqrt_16
      getRandomAngle_def angles_list_eq upt_conv_Cons
      getBinauralSound_def get_col_def shape1_def shape0_def find_closest_idx_in_array_def
      argmin_def get_row_def np_index_def convolve_same_def convolve_full_def)
  from init_signals_length_mismatch [OF h1 h2, of "[Array2 1 [[1], [1]], Array2 1 [[1], [0]]]"
      "Array2 3 [[0, 0, 1], [270, 0, 1]]" "\<lambda>k. if k = 0 then 18 else 0" "[]"]
  obtain e' st where r: "init_signals ?p [Array2 1 [[1], [1]], Array2 1 [[1], [0]]]
             (Array2 3 [[0, 0, 1], [270, 0, 1]]) (\<lambda>k. if k = 0 then 18 else 0)
             ([[2, 2, 2, 2]] @ [2, 2] # []) = Inl (e', st)"
     "e' = AssertionError \<longrightarrow> length (signals st) = length [[2, 2, 2, 2::real]]"
     "\<forall>st'. init_signals ?p [Array2 1 [[1], [1]], Array2 1 [[1], [0]]]
             (Array2 3 [[0, 0, 1], [270, 0, 1]]) (\<lambda>k. if k = 0 then 18 else 0) [[2, 2, 2, 2]]
           = Inr st' \<longrightarrow> e' = AssertionError \<and> st = st'"
    by blast
  from r(3) e have "e' = AssertionError" by blast
  with r(1,2) have "\<exists>st. init_signals ?p [Array2 1 [[1], [1]], Array2 1 [[1], [0]]]
             (Array2 3 [[0, 0, 1], [270, 0, 1]]) (\<lambda>k. if k = 0 then 18 else 0)
             ([[2, 2, 2, 2]] @ [2, 2] # []) = Inl (AssertionError, st)
        \<and> length (signals st) = length [[2, 2, 2, 2::real]]" by blast
  with h1 h2 show ?thesis by simp
qed

text \<open>
  Claim C5 as stated fails: with a first signal of the right length and a second of the
  wrong length, the constructor raises \<open>AssertionError\<close> after it has rendered and
  accumulated the first signal.
\<close>

theorem init_signals_renders_before_assertion:
  "init_signals \<lparr>SIGNAL_LENGTH_SEC = 1, SAMPLE_RATE_HZ = 4, INPUT_SIGNAL_RMS = 1,
        NUM_OF_DIRECTIONS = 37, SGRAM_NOISE_TH_dB = - 10, MIXED_IBM_IDENTIFICATION_TH = 2\<rparr>
     [Array2 1 [[1], [1]], Array2 1 [[1], [0]]] (Array2 3 [[0, 0, 1], [270, 0, 1]])
     (\<lambda>k. if k = 0 then 18 else 0) [[2, 2, 2, 2], [2, 2]]
   = Inl (AssertionError,
          \<lparr>signals = [Array2 2 [[2, 2], [2, 2], [2, 2], [2, 2]]],
          angles = [0], noise = [0, 0, 0, 0],
          res_signal = Array2 2 [[2, 2], [2, 2], [2, 2], [2, 2]], targets = []\<rparr>)"
  by (rule init_signals_wrong_second)

section \<open>False-alarm rate\<close>

lemma performance_of_empty: "performance_of self_angles [] = Inl ZeroDivisionError"
  by (simp add: performance_of_def py_div_def split: sum.splits)

lemma performance_of_nonempty:
  "self_angles \<noteq> [] \<Longrightarrow> rec \<noteq> [] \<Longrightarrow>
     performance_of self_angles rec =
       Inr \<lparr>source_md = real (length (filter (\<lambda>a. a \<notin> set rec) self_angles))
                           / real (length self_angles),
            source_fa = real (length (filter (\<lambda>a. a \<notin> set self_angles) rec))
                           / real (length rec)\<rparr>"
  by (simp add: performance_of_def py_div_def)

lemma noise_only_map:
  "dnnTargetToMixedIbm [Array2 38 [replicate 37 0 @ [1]]] = Inr (Array2 1 [[37]])"
  by (simp add: dnnTargetToMixedIbm_def zeros2_def shape0_def shape1_def Let_def
      dnnTargetToMixedIbm_body_def get_row_def np_index_def argmax_def set2_def numeral_eq_Suc)

lemma two_sources_map:
  "dnnTargetToMixedIbm [Array2 38 [(replicate 38 0)[16 := 1], (replicate 38 0)[24 := 1]]]
     = Inr (Array2 1 [[16], [24]])"
  by (simp add: dnnTargetToMixedIbm_def zeros2_def shape0_def shape1_def Let_def
      dnnTargetToMixedIbm_body_def get_row_def np_index_def argmax_def set2_def numeral_eq_Suc)

text \<open>
  Claim C2, as amended. When the list of recovered angles is empty,
  \<open>estimateNetsPerformance\<close> raises \<open>ZeroDivisionError\<close>; when neither that list nor the
  list of the entry's angles is empty, it returns the false-alarm rate, the number of
  recovered angles that are no angle of the entry divided by the number of recovered
  angles.
\<close>

theorem estimateNetsPerformance_false_alarm:
  assumes "dnnTargetToMixedIbm net_output = Inr mixed_ibm"
    and "mixedIbmToIbms p mixed_ibm = (ibms, recovered)"
  shows "(recovered = [] \<longrightarrow> estimateNetsPerformance p st net_output = Inl ZeroDivisionError)
       \<and> (recovered \<noteq> [] \<and> angles st \<noteq> [] \<longrightarrow>
            (\<exists>perf. estimateNetsPerformance p st net_output = Inr perf
               \<and> source_fa perf = real (length (filter (\<lambda>a. a \<notin> set (angles st)) recovered))
                                     / real (length recovered)))"
  using assms
  by (auto simp: estimateNetsPerformance_def performance_of_empty performance_of_nonempty)

theorem estimateNetsPerformance_false_alarm_witness:
  "estimateNetsPerformance \<lparr>SIGNAL_LENGTH_SEC = 1, SAMPLE_RATE_HZ = 4, INPUT_SIGNAL_RMS = 1,
        NUM_OF_DIRECTIONS = 37, SGRAM_NOISE_TH_dB = - 10, MIXED_IBM_IDENTIFICATION_TH = 1\<rparr>
     \<lparr>signals = [], angles = [- 10, 20], noise = [], res_signal = Array2 2 [], targets = []\<rparr>
     [Array2 38 [replicate 37 0 @ [1]]] = Inl ZeroDivisionError
   \<and> estimateNetsPerformance \<lparr>SIGNAL_LENGTH_SEC = 1, SAMPLE_RATE_HZ = 4, INPUT_SIGNAL_RMS = 1,
        NUM_OF_DIRECTIONS = 37, SGRAM_NOISE_TH_dB = - 10, MIXED_IBM_IDENTIFICATION_TH = 1\<rparr>
     \<lparr>signals = [], angles = [- 10, 20], noise = [], res_signal = Array2 2 [], targets = []\<rparr>
     [Array2 38 [(replicate 38 0)[16 := 1], (replicate 38 0)[24 := 1]]]
       = Inr \<lparr>source_md = 1 / 2, source_fa = 1 / 2\<rparr>"
proof -
  let ?p = "\<lparr>SIGNAL_LENGTH_SEC = 1, SAMPLE_RATE_HZ = 4, INPUT_SIGNAL_RMS = 1,
        NUM_OF_DIRECTIONS = 37, SGRAM_NOISE_TH_dB = - 10, MIXED_IBM_IDENTIFICATION_TH = 1\<rparr>"
  let ?st = "\<lparr>signals = [], angles = [- 10, 20], noise = [], res_signal = Array2 2 [],
        targets = []\<rparr>"
  have d1: "mixedIbmToIbms ?p (Array2 1 [[37]]) = ([], [])"
    by (simp add: mixedIbmToIbms_def np_unique_counts_def Let_def)
  have d2: "mixedIbmToIbms ?p (Array2 1 [[16], [24]])
              = ([Array2 1 [[1], [0]], Array2 1 [[0], [1]]], [- 10, 30])"
    by (simp add: mixedIbmToIbms_def np_unique_counts_def Let_def ibm_of_def getAngleFromIdx_def)
  have a: "estimateNetsPerformance ?p ?st [Array2 38 [replicate 37 0 @ [1]]]
             = Inl ZeroDivisionError"
    using estimateNetsPerformance_false_alarm [OF noise_only_map d1, of ?st] by simp
  have b: "estimateNetsPerformance ?p ?st
             [Array2 38 [(replicate 38 0)[16 := 1], (replicate 38 0)[24 := 1]]]
             = Inr \<lparr>source_md = 1 / 2, source_fa = 1 / 2\<rparr>"
    using estimateNetsPerformance_false_alarm [OF two_sources_map d2, of ?st] d2
    by (simp add: estimateNetsPerformance_def two_sources_map performance_of_def py_div_def)
  show ?thesis using a b by simp
qed

text \<open>
  Claim C2 as stated fails: for an entry with the angles -10 and 20 and a prediction in
  which the one bin is noise, no angle is recovered and the evaluation raises
  \<open>ZeroDivisionError\<close>.
\<close>

theorem estimateNetsPerformance_raises_on_no_angle:
  "estimateNetsPerformance \<lparr>SIGNAL_LENGTH_SEC = 1, SAMPLE_RATE_HZ = 4, INPUT_SIGNAL_RMS = 1,
        NUM_OF_DIRECTIONS = 37, SGRAM_NOISE_TH_dB = - 10, MIXED_IBM_IDENTIFICATION_TH = 1\<rparr>
     \<lparr>signals = [], angles = [- 10, 20], noise = [], res_signal = Array2 2 [], targets = []\<rparr>
     [Array2 38 [replicate 37 0 @ [1]]] = Inl ZeroDivisionError"
  by (simp add: estimateNetsPerformance_def noise_only_map mixedIbmToIbms_def
      np_unique_counts_def Let_def performance_of_empty)

section \<open>Label synthesizer\<close>

lemma np_index_int: "np_index n (int i) = (if i < n then Inr i else Inl IndexError)"
  by (simp add: np_index_def)



lemma update_first_of_replicate:
  assumes "j < n" and "length A = j"
  shows "(A @ replicate (n - j) z)[j := v] = (A @ [v]) @ replicate (n - Suc j) z"
    and "(A @ replicate (n - j) z) ! j = z"
proof -
  from assms(1) have "n - j = Suc (n - Suc j)" by simp
  then have r: "replicate (n - j) z = z # replicate (n - Suc j) z" by simp
  show "(A @ replicate (n - j) z)[j := v] = (A @ [v]) @ replicate (n - Suc j) z"
    unfolding r using assms(2) by (simp add: list_update_append)
  show "(A @ replicate (n - j) z) ! j = z"
    unfolding r using assms(2) by (simp add: nth_append)
qed

lemma map_err_spectrograms:
  assumes "map_err (\<lambda>b. case get_col b 0 of Inl e \<Rightarrow> Inl e | Inr channel \<Rightarrow> Inr (gs channel)) bs
             = Inr sgrams"
  shows "sgrams = map (\<lambda>b. gs (map (\<lambda>r. r ! 0) (rows b))) bs"
  using assms
proof (induction bs arbitrary: sgrams)
  case Nil
  then show ?case by simp
next
  case (Cons b bs)
  then show ?case
    by (auto simp: get_col_def split: sum.splits if_splits)
qed

lemma set2_shape:
  assumes "set2 a i j v = Inr a'"
  shows "ncols a' = ncols a \<and> length (rows a') = length (rows a)
         \<and> ((\<forall>r\<in>set (rows a). length r = n) \<longrightarrow> (\<forall>r\<in>set (rows a'). length r = n))"
proof -
  from assms obtain i' j' where i': "np_index (shape0 a) i = Inr i'"
    and a': "a' = Array2 (ncols a) ((rows a)[i' := (rows a ! i')[j' := v]])"
    by (auto simp: set2_def split: sum.splits)
  from i' have lt: "i' < length (rows a)"
    by (auto simp: np_index_def shape0_def split: if_splits)
  have "length r = n" if all: "\<forall>r\<in>set (rows a). length r = n" and r: "r \<in> set (rows a')" for r
  proof -
    from r a' have "r \<in> insert ((rows a ! i')[j' := v]) (set (rows a))"
      using set_update_subset_insert [of "rows a" i'] by auto
    with all lt show ?thesis by auto
  qed
  with a' show ?thesis by simp
qed

lemma updateTargets_body_shape:
  assumes "updateTargets_body p sgrams noise_sgram self_angles f t tg = Inr tg'"
    and "f < length tg"
    and "\<forall>a\<in>set tg. ncols a = w \<and> length (rows a) = n \<and> (\<forall>r\<in>set (rows a). length r = w)"
  shows "length tg' = length tg
         \<and> (\<forall>a\<in>set tg'. ncols a = w \<and> length (rows a) = n \<and> (\<forall>r\<in>set (rows a). length r = w))"
proof -
  from assms(1) obtain i j target where tgt: "set2 (tg ! f) i j 1 = Inr target"
    and tg': "tg' = tg[f := target]"
    by (auto simp: updateTargets_body_def Let_def split: sum.splits if_splits)
  from assms(2,3) have old: "ncols (tg ! f) = w \<and> length (rows (tg ! f)) = n
      \<and> (\<forall>r\<in>set (rows (tg ! f)). length r = w)"
    using nth_mem [of f tg] by blast
  with set2_shape [OF tgt, of w] have new: "ncols target = w \<and> length (rows target) = n
      \<and> (\<forall>r\<in>set (rows target). length r = w)" by simp
  have "ncols a = w \<and> length (rows a) = n \<and> (\<forall>r\<in>set (rows a). length r = w)"
    if "a \<in> set tg'" for a
  proof -
    from that tg' have "a \<in> insert target (set tg)"
      using set_update_subset_insert [of tg f target] by auto
    with new assms(3) show ?thesis by auto
  qed
  with tg' show ?thesis by simp
qed

lemma updateTargets_loops_shape:
  assumes run: "for_each (\<lambda>out_ind. for_each (updateTargets_body p sgrams noise_sgram self_angles out_ind)
                   [0..<n0]) [0..<n1] tg = Inr tg'"
    and init: "length tg = n1 \<and> (\<forall>a\<in>set tg. ncols a = w \<and> length (rows a) = n
                 \<and> (\<forall>r\<in>set (rows a). length r = w))"
  shows "length tg' = n1 \<and> (\<forall>a\<in>set tg'. ncols a = w \<and> length (rows a) = n
                 \<and> (\<forall>r\<in>set (rows a). length r = w))"
proof -
  let ?I = "\<lambda>s. length s = n1 \<and> (\<forall>a\<in>set s. ncols a = w \<and> length (rows a) = n
                 \<and> (\<forall>r\<in>set (rows a). length r = w))"
  show ?thesis
  proof (rule for_each_upt_invariant [OF run, where P = "\<lambda>i. ?I"])
    show "?I tg" by (rule init)
  next
    fix i s s'
    assume i: "i < n1" and s: "?I s"
      and inner: "for_each (updateTargets_body p sgrams noise_sgram self_angles i) [0..<n0] s = Inr s'"
    show "?I s'"
    proof (rule for_each_upt_invariant [OF inner, where P = "\<lambda>j. ?I"])
      show "?I s" by (rule s)
    next
      fix j u u'
      assume u: "?I u" and b: "updateTargets_body p sgrams noise_sgram self_angles i j u = Inr u'"
      from u i have "i < length u" by simp
      from updateTargets_body_shape [OF b this, of w n] u show "?I u'" by simp
    qed
  qed
qed

lemma updateTargetsFromSignals_example:
  "updateTargetsFromSignals example_parameters example_spectrogram example_entry
     = Inr (example_entry\<lparr>targets := [Array2 38 [(replicate 38 0)[18 := 1]],
                                         Array2 38 [(replicate 38 0)[0 := 1]]]\<rparr>)"
  by (simp add: updateTargetsFromSignals_def example_entry_def example_parameters_def
      example_spectrogram_def get_col_def shape1_def shape0_def updateTargets_from_sgrams_def
      zeros2_def updateTargets_body_def get2_def np_index_def argmax_def getAngleIdx_def
      set2_def Let_def upt_conv_Cons)

text \<open>
  Claim C4, as amended. When \<open>updateTargetsFromSignals\<close> returns, there is one target
  array per frequency channel of the first spectrogram, and each is a rectangular
  array with one row per time frame and \<open>NUM_OF_DIRECTIONS + 1\<close> columns: one column
  per direction of the grid and one noise column, whatever the number of signals.
\<close>

theorem updateTargetsFromSignals_target_shape:
  assumes "updateTargetsFromSignals p getSpectrogram st = Inr st'"
  shows "signals st \<noteq> []
         \<and> length (targets st') = shape1 (getSpectrogram (map (\<lambda>r. r ! 0) (rows (hd (signals st)))))
         \<and> (\<forall>a\<in>set (targets st').
               shape0 a = shape0 (getSpectrogram (map (\<lambda>r. r ! 0) (rows (hd (signals st)))))
               \<and> shape1 a = NUM_OF_DIRECTIONS p + 1 \<and> valid_array2 a)"
proof -
  from assms obtain sgrams tg where
    sg: "map_err (\<lambda>b. case get_col b 0 of Inl e \<Rightarrow> Inl e | Inr channel \<Rightarrow> Inr (getSpectrogram channel))
           (signals st) = Inr sgrams"
    and tg: "updateTargets_from_sgrams p sgrams (getSpectrogram (noise st)) (angles st) = Inr tg"
    and st': "st' = st\<lparr>targets := tg\<rparr>"
    by (auto simp: updateTargetsFromSignals_def Let_def split: sum.splits)
  have sgrams: "sgrams = map (\<lambda>b. getSpectrogram (map (\<lambda>r. r ! 0) (rows b))) (signals st)"
    by (rule map_err_spectrograms [OF sg])
  from tg obtain s0 rest where s0: "sgrams = s0 # rest"
    by (cases sgrams) (auto simp: updateTargets_from_sgrams_def)
  with sgrams have ne: "signals st \<noteq> []" by auto
  with sgrams s0 have hd: "s0 = getSpectrogram (map (\<lambda>r. r ! 0) (rows (hd (signals st))))"
    by (cases "signals st") auto
  from tg s0 have run: "for_each (\<lambda>out_ind. for_each
        (updateTargets_body p sgrams (getSpectrogram (noise st)) (angles st) out_ind)
        [0..<shape0 s0]) [0..<shape1 s0]
        (replicate (shape1 s0) (zeros2 (shape0 s0) (NUM_OF_DIRECTIONS p + 1))) = Inr tg"
    by (simp add: updateTargets_from_sgrams_def)
  have "length tg = shape1 s0 \<and> (\<forall>a\<in>set tg. ncols a = NUM_OF_DIRECTIONS p + 1
          \<and> length (rows a) = shape0 s0 \<and> (\<forall>r\<in>set (rows a). length r = NUM_OF_DIRECTIONS p + 1))"
    by (rule updateTargets_loops_shape [OF run]) (auto simp: zeros2_def)
  then show ?thesis
    using ne by (simp add: st' hd shape0_def shape1_def valid_array2_def list_all_iff)
qed

theorem updateTargetsFromSignals_target_shape_witness:
  "updateTargetsFromSignals example_parameters example_spectrogram example_entry
     = Inr (example_entry\<lparr>targets := [Array2 38 [(replicate 38 0)[18 := 1]],
                                         Array2 38 [(replicate 38 0)[0 := 1]]]\<rparr>)
   \<and> length (targets (example_entry\<lparr>targets := [Array2 38 [(replicate 38 0)[18 := 1]],
                                         Array2 38 [(replicate 38 0)[0 := 1]]]\<rparr>)) = 2
   \<and> shape1 (example_spectrogram (map (\<lambda>r. r ! 0) (rows (hd (signals example_entry))))) = 2"
  using updateTargetsFromSignals_example updateTargetsFromSignals_target_shape [OF updateTargetsFromSignals_example]
  by (simp add: example_entry_def example_spectrogram_def shape1_def)

text \<open>
  Claim C4 as stated fails: for an entry of two signals and 37 directions the two
  target arrays have 38 columns, not 2 + 1.
\<close>

theorem updateTargetsFromSignals_width_is_directions:
  "updateTargetsFromSignals example_parameters example_spectrogram example_entry
     = Inr (example_entry\<lparr>targets := [Array2 38 [(replicate 38 0)[18 := 1]],
                                         Array2 38 [(replicate 38 0)[0 := 1]]]\<rparr>)
   \<and> map shape1 [Array2 38 [(replicate 38 0)[18 := (1::real)]],
                  Array2 38 [(replicate 38 0)[0 := 1]]] = [38, 38]
   \<and> length (signals example_entry) + 1 = 3"
  using updateTargetsFromSignals_example by (simp add: shape1_def example_entry_def)















section \<open>Encoding targets and decoding them again\<close>

lemma filter_singleton_index:
  "length (filter P xs) = 1 \<Longrightarrow>
     \<exists>c<length xs. P (xs ! c) \<and> (\<forall>j<length xs. P (xs ! j) \<longrightarrow> j = c)"
proof (induction xs)
  case Nil
  then show ?case by simp
next
  case (Cons x xs)
  show ?case
  proof (cases "P x")
    case True
    with Cons.prems have "filter P xs = []" by simp
    then have none: "\<forall>j<length xs. \<not> P (xs ! j)"
      by (auto simp: filter_empty_conv)
    have "\<forall>j<length (x # xs). P ((x # xs) ! j) \<longrightarrow> j = 0"
    proof (intro allI impI)
      fix j assume "j < length (x # xs)" "P ((x # xs) ! j)"
      with none show "j = 0" by (cases j) auto
    qed
    with True show ?thesis by (intro exI [of _ 0]) simp
  next
    case False
    with Cons.prems have "length (filter P xs) = 1" by simp
    from Cons.IH [OF this] obtain c where c: "c < length xs" "P (xs ! c)"
      "\<forall>j<length xs. P (xs ! j) \<longrightarrow> j = c" by blast
    have "\<forall>j<length (x # xs). P ((x # xs) ! j) \<longrightarrow> j = Suc c"
    proof (intro allI impI)
      fix j assume "j < length (x # xs)" "P ((x # xs) ! j)"
      with False c(3) show "j = Suc c" by (cases j) auto
    qed
    with c(1,2) show ?thesis by (intro exI [of _ "Suc c"]) simp
  qed
qed

lemma one_hot_position:
  assumes "one_hot r"
  shows "r \<noteq> [] \<and> first_max_index r < length r
         \<and> (\<forall>j<length r. (r ! j = 1) = (j = first_max_index r))"
proof -
  from assms have one: "length (filter (\<lambda>x. x = 1) r) = 1"
    and bits: "\<forall>x\<in>set r. x = 0 \<or> x = 1"
    by (simp_all add: one_hot_def list_all_iff)
  from filter_singleton_index [OF one] obtain c where c: "c < length r" "r ! c = 1"
    and uniq: "\<And>j. j < length r \<Longrightarrow> r ! j = 1 \<Longrightarrow> j = c" by blast
  from c(1) have ne: "r \<noteq> []" by auto
  define k where "k = first_max_index r"
  have k: "k < length r" unfolding k_def by (rule first_max_index_less [OF ne])
  have ge: "r ! c \<le> r ! k" unfolding k_def by (rule first_max_index_ge [OF c(1)])
  have "r ! k \<in> set r" using k by simp
  with bits have "r ! k = 0 \<or> r ! k = 1" by blast
  with ge c(2) have rk: "r ! k = 1" by linarith
  have kc: "k = c" by (rule uniq [OF k rk])
  have "(r ! j = 1) = (j = k)" if "j < length r" for j
  proof
    assume "r ! j = 1"
    from uniq [OF that this] kc show "j = k" by simp
  next
    assume "j = k"
    with rk show "r ! j = 1" by simp
  qed
  with ne k show ?thesis unfolding k_def by blast
qed

lemma dnnTargetToMixedIbm_body_Inr:
  assumes "t < shape0 (dnn_target ! f)" and "rows (dnn_target ! f) ! t \<noteq> []"
    and "t < shape0 a" and "f < shape1 a"
  shows "dnnTargetToMixedIbm_body dnn_target t f a =
           Inr (Array2 (ncols a)
                 ((rows a)[t := (rows a ! t)[f := int (first_max_index (rows (dnn_target ! f) ! t))]]))"
  using assms
  by (simp add: dnnTargetToMixedIbm_body_def get_row_def np_index_int argmax_def set2_def)

lemma dnnTargetToMixedIbm_inner_loop:
  assumes ok: "\<forall>f<n1. t < shape0 (dnn_target ! f) \<and> rows (dnn_target ! f) ! t \<noteq> []"
    and t: "t < length rs" and zero: "rs ! t = replicate n1 0"
  shows "for_each (dnnTargetToMixedIbm_body dnn_target t) [0..<n1] (Array2 n1 rs) =
           Inr (Array2 n1 (rs[t := map (\<lambda>f. int (first_max_index (rows (dnn_target ! f) ! t)))
                                      [0..<n1]]))"
proof -
  let ?g = "\<lambda>f. int (first_max_index (rows (dnn_target ! f) ! t))"
  let ?P = "\<lambda>j a. a = Array2 n1 (rs[t := map ?g [0..<j] @ replicate (n1 - j) 0])"
  have "\<exists>a'. for_each (dnnTargetToMixedIbm_body dnn_target t) [0..<n1] (Array2 n1 rs) = Inr a'
           \<and> ?P n1 a'"
  proof (rule for_each_upt_total [where P = ?P])
    have "rs = rs[t := rs ! t]" by simp
    then show "?P 0 (Array2 n1 rs)" unfolding zero by simp
  next
    fix j a
    assume j: "j < n1" and a: "?P j a"
    have len: "length (map ?g [0..<j]) = j" by simp
    have row: "rows a ! t = map ?g [0..<j] @ replicate (n1 - j) 0"
      using t by (simp add: a)
    have upd: "(rows a ! t)[j := ?g j] = map ?g [0..<Suc j] @ replicate (n1 - Suc j) 0"
      unfolding row using update_first_of_replicate(1) [OF j len, of 0 "?g j"] by simp
    have "dnnTargetToMixedIbm_body dnn_target t j a =
            Inr (Array2 (ncols a) ((rows a)[t := (rows a ! t)[j := ?g j]]))"
      using ok j t by (intro dnnTargetToMixedIbm_body_Inr) (simp_all add: a shape0_def shape1_def)
    also have "Array2 (ncols a) ((rows a)[t := (rows a ! t)[j := ?g j]]) =
                 Array2 n1 (rs[t := map ?g [0..<Suc j] @ replicate (n1 - Suc j) 0])"
      unfolding upd by (simp add: a)
    finally show "\<exists>a'. dnnTargetToMixedIbm_body dnn_target t j a = Inr a' \<and> ?P (Suc j) a'"
      by simp
  qed
  then show ?thesis by simp
qed

lemma dnnTargetToMixedIbm_outer_loop:
  assumes ok: "\<forall>f<n1. \<forall>t<n0. t < shape0 (dnn_target ! f) \<and> rows (dnn_target ! f) ! t \<noteq> []"
  shows "for_each (\<lambda>time_dim. for_each (dnnTargetToMixedIbm_body dnn_target time_dim) [0..<n1])
           [0..<n0] (zeros2 n0 n1) =
         Inr (Array2 n1 (map (\<lambda>t. map (\<lambda>f. int (first_max_index (rows (dnn_target ! f) ! t)))
                                    [0..<n1]) [0..<n0]))"
proof -
  let ?row = "\<lambda>t. map (\<lambda>f. int (first_max_index (rows (dnn_target ! f) ! t))) [0..<n1]"
  let ?z = "replicate n1 (0::int)"
  let ?Q = "\<lambda>i a. a = Array2 n1 (map ?row [0..<i] @ replicate (n0 - i) ?z)"
  have "\<exists>a'. for_each (\<lambda>time_dim. for_each (dnnTargetToMixedIbm_body dnn_target time_dim) [0..<n1])
           [0..<n0] (zeros2 n0 n1) = Inr a' \<and> ?Q n0 a'"
  proof (rule for_each_upt_total [where P = ?Q])
    show "?Q 0 (zeros2 n0 n1)" by (simp add: zeros2_def)
  next
    fix i a
    assume i: "i < n0" and a: "?Q i a"
    let ?rs = "map ?row [0..<i] @ replicate (n0 - i) ?z"
    have len: "length (map ?row [0..<i]) = i" by simp
    have ok': "\<forall>f<n1. i < shape0 (dnn_target ! f) \<and> rows (dnn_target ! f) ! i \<noteq> []"
      using ok i by blast
    have ilen: "i < length ?rs" using i by simp
    have zero: "?rs ! i = ?z" by (rule update_first_of_replicate(2) [OF i len])
    have "for_each (dnnTargetToMixedIbm_body dnn_target i) [0..<n1] a =
            Inr (Array2 n1 (?rs[i := ?row i]))"
      unfolding a by (rule dnnTargetToMixedIbm_inner_loop [OF ok' ilen zero])
    moreover have "?rs[i := ?row i] = map ?row [0..<Suc i] @ replicate (n0 - Suc i) ?z"
      using update_first_of_replicate(1) [OF i len, of ?z "?row i"] by simp
    ultimately show "\<exists>a'. for_each (dnnTargetToMixedIbm_body dnn_target i) [0..<n1] a = Inr a'
        \<and> ?Q (Suc i) a'" by simp
  qed
  then show ?thesis by simp
qed

lemma dnnTargetToMixedIbm_valid_targets:
  assumes "valid_targets n0 n1 dnn_target"
  shows "dnnTargetToMixedIbm dnn_target =
           Inr (Array2 (length dnn_target)
                  (map (\<lambda>t. map (\<lambda>f. int (first_max_index (rows (dnn_target ! f) ! t)))
                               [0..<length dnn_target]) [0..<n0]))"
proof -
  from assms have ne: "dnn_target \<noteq> []"
    and all: "\<forall>a\<in>set dnn_target. valid_array2 a \<and> shape0 a = n0 \<and> shape1 a = n1
                 \<and> (\<forall>r\<in>set (rows a). one_hot r)"
    by (simp_all add: valid_targets_def list_all_iff)
  from ne obtain d0 rest where d: "dnn_target = d0 # rest" by (cases dnn_target) auto
  with all have d0: "shape0 d0 = n0" by simp
  have ok: "\<forall>f<length dnn_target. \<forall>t<n0. t < shape0 (dnn_target ! f)
              \<and> rows (dnn_target ! f) ! t \<noteq> []"
  proof (intro allI impI)
    fix f t assume f: "f < length dnn_target" and t: "t < n0"
    from f all have a: "shape0 (dnn_target ! f) = n0" "\<forall>r\<in>set (rows (dnn_target ! f)). one_hot r"
      using nth_mem [of f dnn_target] by blast+
    from a(1) t have "rows (dnn_target ! f) ! t \<in> set (rows (dnn_target ! f))"
      by (simp add: shape0_def)
    with a(2) have "one_hot (rows (dnn_target ! f) ! t)" by blast
    with one_hot_position a(1) t
    show "t < shape0 (dnn_target ! f) \<and> rows (dnn_target ! f) ! t \<noteq> []" by auto
  qed
  have "dnnTargetToMixedIbm dnn_target =
          for_each (\<lambda>time_dim. for_each (dnnTargetToMixedIbm_body dnn_target time_dim)
                                  [0..<length dnn_target])
            [0..<n0] (zeros2 n0 (length dnn_target))"
    using d d0 by (simp add: dnnTargetToMixedIbm_def Let_def zeros2_def shape0_def shape1_def)
  then show ?thesis by (simp only: dnnTargetToMixedIbm_outer_loop [OF ok])
qed

lemma valid_targets_row:
  assumes "valid_targets n0 n1 dnn_target" and "f < length dnn_target" and "t < n0"
  shows "one_hot (rows (dnn_target ! f) ! t) \<and> length (rows (dnn_target ! f) ! t) = n1"
proof -
  from assms(1) have all: "\<forall>a\<in>set dnn_target. valid_array2 a \<and> shape0 a = n0 \<and> shape1 a = n1
                 \<and> (\<forall>r\<in>set (rows a). one_hot r)"
    by (simp add: valid_targets_def list_all_iff)
  from assms(2) all have a: "valid_array2 (dnn_target ! f)" "shape0 (dnn_target ! f) = n0"
    "shape1 (dnn_target ! f) = n1" "\<forall>r\<in>set (rows (dnn_target ! f)). one_hot r"
    using nth_mem [of f dnn_target] by blast+
  from a(2) assms(3) have mem: "rows (dnn_target ! f) ! t \<in> set (rows (dnn_target ! f))"
    by (simp add: shape0_def)
  with a(4) have "one_hot (rows (dnn_target ! f) ! t)" by blast
  moreover from a(1,3) mem have "length (rows (dnn_target ! f) ! t) = n1"
    by (auto simp: valid_array2_def list_all_iff shape1_def)
  ultimately show ?thesis by simp
qed

text \<open>
  Claim C1. For a valid family of one-hot targets (one rectangular array per frequency
  channel, all of shape \<open>(n0, n1)\<close>) \<open>dnnTargetToMixedIbm\<close> returns a class map of
  shape \<open>(n0, number of channels)\<close> that holds at every bin the position of the 1 of the
  bin's target row. \<open>mixedIbmToIbms\<close> of this map returns the mask and the angle of
  every surviving class, the classes present in the map whose pixel count is at least
  the threshold and whose index is below the noise class; the mask of a surviving
  class holds 1 at exactly the bins whose target row has its 1 at that class index.
\<close>

theorem decode_encode_round_trip:
  assumes "valid_targets n0 n1 dnn_target"
  shows "\<exists>mixed_ibm. dnnTargetToMixedIbm dnn_target = Inr mixed_ibm
           \<and> shape0 mixed_ibm = n0 \<and> shape1 mixed_ibm = length dnn_target
           \<and> valid_array2 mixed_ibm
           \<and> (\<forall>t<n0. \<forall>f<length dnn_target. \<forall>c<n1.
                 (rows mixed_ibm ! t ! f = int c) = (rows (dnn_target ! f) ! t ! c = 1))
           \<and> mixedIbmToIbms p mixed_ibm =
                (map (ibm_of mixed_ibm) (surviving_classes p mixed_ibm),
                 map (\<lambda>c. c * 5 - 90) (surviving_classes p mixed_ibm))
           \<and> (\<forall>c. (c \<in> set (surviving_classes p mixed_ibm)) =
                 (c \<in> set (concat (rows mixed_ibm))
                  \<and> MIXED_IBM_IDENTIFICATION_TH p \<le> int (count_list (concat (rows mixed_ibm)) c)
                  \<and> c < int (NUM_OF_DIRECTIONS p)))
           \<and> (\<forall>c\<in>set (surviving_classes p mixed_ibm).
                 0 \<le> c \<and> nat c < n1
                 \<and> (\<forall>t<n0. \<forall>f<length dnn_target.
                       (rows (ibm_of mixed_ibm c) ! t ! f = 1)
                         = (rows (dnn_target ! f) ! t ! nat c = 1)))"
proof -
  let ?F = "length dnn_target"
  let ?g = "\<lambda>t f. int (first_max_index (rows (dnn_target ! f) ! t))"
  define m where "m = Array2 ?F (map (\<lambda>t. map (?g t) [0..<?F]) [0..<n0])"
  have enc: "dnnTargetToMixedIbm dnn_target = Inr m"
    unfolding m_def by (rule dnnTargetToMixedIbm_valid_targets [OF assms])
  have sh: "shape0 m = n0" "shape1 m = ?F" "valid_array2 m"
    by (simp_all add: m_def shape0_def shape1_def valid_array2_def list_all_iff)
  have cell: "rows m ! t ! f = ?g t f" if "t < n0" "f < ?F" for t f
    using that by (simp add: m_def)
  have rowlen: "length (rows m ! t) = ?F" if "t < n0" for t
    using that by (simp add: m_def)
  have pos: "first_max_index (rows (dnn_target ! f) ! t) < n1
             \<and> (\<forall>j<n1. (rows (dnn_target ! f) ! t ! j = 1)
                          = (j = first_max_index (rows (dnn_target ! f) ! t)))"
    if "t < n0" "f < ?F" for t f
    using valid_targets_row [OF assms that(2,1)]
      one_hot_position [of "rows (dnn_target ! f) ! t"] by auto
  have enc_cell: "(rows m ! t ! f = int c) = (rows (dnn_target ! f) ! t ! c = 1)"
    if "t < n0" "f < ?F" "c < n1" for t f c
    using pos [OF that(1,2)] that(3) by (auto simp: cell [OF that(1,2)])
  have dec: "mixedIbmToIbms p m =
               (map (ibm_of m) (surviving_classes p m), map (\<lambda>c. c * 5 - 90) (surviving_classes p m))"
  proof -
    have "getAngleFromIdx = (\<lambda>c. c * 5 - 90)" by (auto simp: getAngleFromIdx_def)
    then show ?thesis by (simp only: mixedIbmToIbms_survivors)
  qed
  have mem: "(c \<in> set (surviving_classes p m)) =
                 (c \<in> set (concat (rows m))
                  \<and> MIXED_IBM_IDENTIFICATION_TH p \<le> int (count_list (concat (rows m)) c)
                  \<and> c < int (NUM_OF_DIRECTIONS p))" for c
    by (auto simp: surviving_classes_def)
  have present: "\<exists>t<n0. \<exists>f<?F. c = ?g t f" if "c \<in> set (concat (rows m))" for c
    using that by (fastforce simp: m_def)
  have surv: "0 \<le> c \<and> nat c < n1
                 \<and> (\<forall>t<n0. \<forall>f<?F. (rows (ibm_of m c) ! t ! f = 1)
                         = (rows (dnn_target ! f) ! t ! nat c = 1))"
    if "c \<in> set (surviving_classes p m)" for c
  proof -
    from that mem have "c \<in> set (concat (rows m))" by blast
    from present [OF this] obtain t0 f0 where tf: "t0 < n0" "f0 < ?F" "c = ?g t0 f0" by blast
    from tf(3) have c0: "0 \<le> c" by simp
    from tf(3) pos [OF tf(1,2)] have c1: "nat c < n1" by simp
    have "(rows (ibm_of m c) ! t ! f = 1) = (rows (dnn_target ! f) ! t ! nat c = 1)"
      if t: "t < n0" and f: "f < ?F" for t f
    proof -
      have "rows (ibm_of m c) ! t ! f = (if rows m ! t ! f = c then 1 else 0)"
        using t f sh(1) rowlen [OF t] by (intro ibm_of_cell) (simp_all add: shape0_def)
      then have "(rows (ibm_of m c) ! t ! f = 1) = (rows m ! t ! f = int (nat c))"
        using c0 by simp
      also have "\<dots> = (rows (dnn_target ! f) ! t ! nat c = 1)"
        by (rule enc_cell [OF t f c1])
      finally show ?thesis .
    qed
    with c0 c1 show ?thesis by blast
  qed
  show ?thesis
    using enc sh enc_cell dec mem surv by (intro exI [of _ m]) blast
qed

theorem decode_encode_round_trip_witness:
  "valid_targets 2 3 [Array2 3 [[0, 1, 0], [1, 0, 0]], Array2 3 [[0, 1, 0], [0, 0, 1]]]
   \<and> dnnTargetToMixedIbm [Array2 3 [[0, 1, 0], [1, 0, 0]], Array2 3 [[0, 1, 0], [0, 0, 1]]] = Inr (Array2 2 [[1, 1], [0, 2]])
   \<and> mixedIbmToIbms \<lparr>SIGNAL_LENGTH_SEC = 1, SAMPLE_RATE_HZ = 4, INPUT_SIGNAL_RMS = 1,
        NUM_OF_DIRECTIONS = 2, SGRAM_NOISE_TH_dB = - 10, MIXED_IBM_IDENTIFICATION_TH = 2\<rparr>
        (Array2 2 [[1, 1], [0, 2]]) = ([Array2 2 [[1, 1], [0, 0]]], [- 85])"
proof -
  have h: "valid_targets 2 3 [Array2 3 [[0, 1, 0], [1, 0, 0]], Array2 3 [[0, 1, 0], [0, 0, 1]]]"
    by (simp add: valid_targets_def valid_array2_def shape0_def shape1_def one_hot_def)
  have e: "dnnTargetToMixedIbm [Array2 3 [[0, 1, 0], [1, 0, 0]], Array2 3 [[0, 1, 0], [0, 0, 1]]] = Inr (Array2 2 [[1, 1], [0, 2]])"
    by (simp add: dnnTargetToMixedIbm_def zeros2_def shape0_def shape1_def Let_def
        dnnTargetToMixedIbm_body_def get_row_def np_index_def argmax_def set2_def numeral_eq_Suc)
  have d: "mixedIbmToIbms \<lparr>SIGNAL_LENGTH_SEC = 1, SAMPLE_RATE_HZ = 4, INPUT_SIGNAL_RMS = 1,
        NUM_OF_DIRECTIONS = 2, SGRAM_NOISE_TH_dB = - 10, MIXED_IBM_IDENTIFICATION_TH = 2\<rparr>
        (Array2 2 [[1, 1], [0, 2]]) = ([Array2 2 [[1, 1], [0, 0]]], [- 85])"
    by (simp add: mixedIbmToIbms_def np_unique_counts_def Let_def ibm_of_def getAngleFromIdx_def)
  from decode_encode_round_trip [OF h, of "\<lparr>SIGNAL_LENGTH_SEC = 1, SAMPLE_RATE_HZ = 4, INPUT_SIGNAL_RMS = 1,
        NUM_OF_DIRECTIONS = 2, SGRAM_NOISE_TH_dB = - 10, MIXED_IBM_IDENTIFICATION_TH = 2\<rparr>"]
  have "\<exists>m. dnnTargetToMixedIbm [Array2 3 [[0, 1, 0], [1, 0, 0]], Array2 3 [[0, 1, 0], [0, 0, 1]]] = Inr m" by blast
  with h e d show ?thesis by simp
qed

end
